theory Spec2Isabelle
  imports Main "HOL-Library.Word"
begin

unbundle bit_operations_syntax

section \<open>The host-side USB transport of adb (adb/usb\_linux.cpp)\<close>

text \<open>
  The theory embeds the descriptor walk of \<open>find_usb_device\<close>, the handle registry
  (\<open>register_device\<close>, \<open>kick_disconnected_devices\<close>, \<open>usb_kick\<close>) and the transfer
  calls (\<open>usb_bulk_write\<close>, \<open>usb_bulk_read\<close>, \<open>usb_write\<close>, \<open>usb_read\<close>) of
  \<open>adb/usb_linux.cpp\<close>. One calling thread is followed at a time. What the kernel and
  the other threads do is an argument of each function (a script of answers), and what
  the thread does to the outside (ioctls, waits, locks, calls into the transport layer)
  is returned as a list of actions in program order.
\<close>

subsection \<open>Constants of the system headers\<close>

type_synonym u8 = "8 word"
type_synonym u16 = "16 word"
type_synonym u32 = "32 word"

text \<open>
  Modelled from the spec: the descriptor sizes and type tags come from
  \<open><linux/usb/ch9.h>\<close>, which is not among the sources; the spec only calls them
  "the expected constant" of each record. The values are those fixed by chapter 9 of the
  USB specification.
\<close>

definition USB_DT_DEVICE_SIZE :: nat where "USB_DT_DEVICE_SIZE = 18"
definition USB_DT_CONFIG_SIZE :: nat where "USB_DT_CONFIG_SIZE = 9"
definition USB_DT_INTERFACE_SIZE :: nat where "USB_DT_INTERFACE_SIZE = 9"
definition USB_DT_ENDPOINT_SIZE :: nat where "USB_DT_ENDPOINT_SIZE = 7"
definition USB_DT_SS_EP_COMP_SIZE :: nat where "USB_DT_SS_EP_COMP_SIZE = 6"

definition USB_DT_DEVICE :: u8 where "USB_DT_DEVICE = 1"
definition USB_DT_CONFIG :: u8 where "USB_DT_CONFIG = 2"
definition USB_DT_INTERFACE :: u8 where "USB_DT_INTERFACE = 4"
definition USB_DT_ENDPOINT :: u8 where "USB_DT_ENDPOINT = 5"
definition USB_DT_SS_ENDPOINT_COMP :: u8 where "USB_DT_SS_ENDPOINT_COMP = 48"
definition USB_ENDPOINT_XFER_BULK :: u8 where "USB_ENDPOINT_XFER_BULK = 2"
definition USB_ENDPOINT_DIR_MASK :: u8 where "USB_ENDPOINT_DIR_MASK = 128"

lemmas usb_consts =
  USB_DT_DEVICE_SIZE_def USB_DT_CONFIG_SIZE_def USB_DT_INTERFACE_SIZE_def
  USB_DT_ENDPOINT_SIZE_def USB_DT_SS_EP_COMP_SIZE_def USB_DT_DEVICE_def
  USB_DT_CONFIG_def USB_DT_INTERFACE_def USB_DT_ENDPOINT_def
  USB_DT_SS_ENDPOINT_COMP_def USB_ENDPOINT_XFER_BULK_def USB_ENDPOINT_DIR_MASK_def

subsection \<open>The descriptor walk of \<open>find_usb_device\<close>\<close>

text \<open>
  \<open>devdesc\<close> is the 4096-byte array the descriptors are read into and \<open>desclength\<close>
  the number of bytes \<open>unix_read\<close> stored there. The code addresses the array with a
  raw pointer, so a memory is a function from the offset relative to \<open>devdesc\<close> to the
  byte found there, whether or not the offset lies below \<open>desclength\<close>. Every function
  of the walk returns, next to its value, the offsets it has dereferenced, in order.
\<close>

type_synonym memory = "nat \<Rightarrow> u8"

text \<open>A \<open>__le16\<close> field, read as the little-endian host reads it.\<close>

definition le16 :: "memory \<Rightarrow> nat \<Rightarrow> u16" where
  "le16 mem i = ucast (mem i) + 256 * ucast (mem (i + 1))"

text \<open>The arguments \<open>find_usb_device\<close> hands to \<open>register_device_callback\<close>, the two
  path names apart.\<close>

record usb_match =
  m_ep_in :: u8
  m_ep_out :: u8
  m_interface :: u8
  m_serial_index :: u8
  m_zero_mask :: u32

datatype parse_result = No_match | Match usb_match

text \<open>One pass through the body of the \<open>while (bufptr < bufend)\<close> loop ends the loop
  (\<open>break\<close>) or goes on with a new \<open>bufptr\<close>.\<close>

datatype step = Break parse_result "nat list" | Continue nat "nat list"

text \<open>The test for a SuperSpeed endpoint companion, which the source writes out twice:
  \<open>bufptr+2 <= devdesc + desclength && bufptr[0] == USB_DT_SS_EP_COMP_SIZE &&
  bufptr[1] == USB_DT_SS_ENDPOINT_COMP\<close>, with the bytes read as \<open>&&\<close> reaches them.\<close>

definition skip_ss_ep_comp :: "memory \<Rightarrow> nat \<Rightarrow> nat \<Rightarrow> nat \<times> nat list" where
  "skip_ss_ep_comp mem desclength bufptr =
     (if bufptr + 2 \<le> desclength then
        if unat (mem bufptr) = USB_DT_SS_EP_COMP_SIZE then
          if mem (bufptr + 1) = USB_DT_SS_ENDPOINT_COMP
          then (bufptr + USB_DT_SS_EP_COMP_SIZE, [bufptr, bufptr + 1])
          else (bufptr, [bufptr, bufptr + 1])
        else (bufptr, [bufptr])
      else (bufptr, []))"

text \<open>The four tag tests on \<open>ep1\<close> and \<open>ep2\<close>, joined by \<open>||\<close> in the source.\<close>

definition endpoint_tags_wrong :: "memory \<Rightarrow> nat \<Rightarrow> nat \<Rightarrow> bool \<times> nat list" where
  "endpoint_tags_wrong mem ep1 ep2 =
     (if unat (mem ep1) \<noteq> USB_DT_ENDPOINT_SIZE then (True, [ep1])
      else if mem (ep1 + 1) \<noteq> USB_DT_ENDPOINT then (True, [ep1, ep1 + 1])
      else if unat (mem ep2) \<noteq> USB_DT_ENDPOINT_SIZE then (True, [ep1, ep1 + 1, ep2])
      else (mem (ep2 + 1) \<noteq> USB_DT_ENDPOINT, [ep1, ep1 + 1, ep2, ep2 + 1]))"

text \<open>Both endpoints must be bulk: \<open>ep1->bmAttributes != USB_ENDPOINT_XFER_BULK ||
  ep2->bmAttributes != USB_ENDPOINT_XFER_BULK\<close>.\<close>

definition not_both_bulk :: "memory \<Rightarrow> nat \<Rightarrow> nat \<Rightarrow> bool \<times> nat list" where
  "not_both_bulk mem ep1 ep2 =
     (if mem (ep1 + 3) \<noteq> USB_ENDPOINT_XFER_BULK then (True, [ep1 + 3])
      else (mem (ep2 + 3) \<noteq> USB_ENDPOINT_XFER_BULK, [ep1 + 3, ep2 + 3]))"

text \<open>
  The part of the loop body that follows a matching interface descriptor at offset
  \<open>interface\<close>; \<open>bufptr\<close> already points behind it. \<open>zero_mask\<close> still has its initial
  value 0 when the assignment is reached, because the only assignment to it is followed
  by the \<open>break\<close> after the callback. \<open>iSerialNumber\<close> is byte 16 of the device
  descriptor at offset 0.
\<close>

definition look_for_endpoints :: "memory \<Rightarrow> nat \<Rightarrow> nat \<Rightarrow> nat \<Rightarrow> nat list \<Rightarrow> step" where
  "look_for_endpoints mem desclength interface bufptr rs =
     (let ep1 = bufptr;
          (bufptr1, rs1) = skip_ss_ep_comp mem desclength (bufptr + USB_DT_ENDPOINT_SIZE);
          ep2 = bufptr1;
          (bufptr2, rs2) = skip_ss_ep_comp mem desclength (bufptr1 + USB_DT_ENDPOINT_SIZE)
      in
        if bufptr2 > desclength then Break No_match (rs @ rs1 @ rs2)
        else
          let (wrong, rs3) = endpoint_tags_wrong mem ep1 ep2 in
          if wrong then Break No_match (rs @ rs1 @ rs2 @ rs3)
          else
            let (nobulk, rs4) = not_both_bulk mem ep1 ep2 in
            if nobulk then Continue bufptr2 (rs @ rs1 @ rs2 @ rs3 @ rs4)
            else
              let (zero_mask, rs5) =
                    (if mem (interface + 7) = 1
                     then (ucast (le16 mem (ep1 + 4)) - 1, [interface + 7, ep1 + 4, ep1 + 5])
                     else (0, [interface + 7]));
                  (local_ep_in, local_ep_out, rs6) =
                    (if mem (ep1 + 2) AND USB_ENDPOINT_DIR_MASK \<noteq> 0
                     then (mem (ep1 + 2), mem (ep2 + 2), [ep1 + 2, ep1 + 2, ep2 + 2])
                     else (mem (ep2 + 2), mem (ep1 + 2), [ep1 + 2, ep2 + 2, ep1 + 2]))
              in Break
                   (Match \<lparr>m_ep_in = local_ep_in, m_ep_out = local_ep_out,
                           m_interface = mem (interface + 2), m_serial_index = mem 16,
                           m_zero_mask = zero_mask\<rparr>)
                   (rs @ rs1 @ rs2 @ rs3 @ rs4 @ rs5 @ rs6 @ [interface + 2, 16]))"

text \<open>
  The loop body. \<open>is_adb_interface\<close> is declared in \<open>adb.h\<close> and defined outside this
  file, so it is a parameter. The length and the type of the record are read before
  anything is known about \<open>bufptr + 1\<close>, and the interface fields are read at
  \<open>interface + 4\<close> to \<open>interface + 7\<close> after \<open>bufptr\<close> has moved on by \<open>length\<close>.
\<close>

definition loop_body ::
  "(u16 \<Rightarrow> u16 \<Rightarrow> u8 \<Rightarrow> u8 \<Rightarrow> u8 \<Rightarrow> bool) \<Rightarrow> memory \<Rightarrow> nat \<Rightarrow> u16 \<Rightarrow> u16 \<Rightarrow> nat \<Rightarrow> nat list \<Rightarrow> step"
where
  "loop_body is_adb_interface mem desclength vid pid bufptr rs =
     (let len = mem bufptr;
          type = mem (bufptr + 1);
          rs0 = rs @ [bufptr, bufptr + 1]
      in
        if type = USB_DT_INTERFACE then
          let interface = bufptr;
              bufptr' = bufptr + unat len
          in
            if unat len \<noteq> USB_DT_INTERFACE_SIZE then Break No_match rs0
            else if mem (interface + 4) = 2 then
              if is_adb_interface vid pid (mem (interface + 5)) (mem (interface + 6))
                   (mem (interface + 7))
              then look_for_endpoints mem desclength interface bufptr'
                     (rs0 @ [interface + 4, interface + 5, interface + 6, interface + 7])
              else Continue bufptr'
                     (rs0 @ [interface + 4, interface + 5, interface + 6, interface + 7])
            else Continue bufptr' (rs0 @ [interface + 4])
        else Continue (bufptr + unat len) rs0)"

text \<open>The loop \<open>while (bufptr < bufend)\<close>. It need not end, so the result is optional:
  \<open>None\<close> is the loop that runs forever.\<close>

partial_function (option) descriptor_loop ::
  "(u16 \<Rightarrow> u16 \<Rightarrow> u8 \<Rightarrow> u8 \<Rightarrow> u8 \<Rightarrow> bool) \<Rightarrow> memory \<Rightarrow> nat \<Rightarrow> u16 \<Rightarrow> u16 \<Rightarrow> nat \<Rightarrow> nat list
     \<Rightarrow> (parse_result \<times> nat list) option"
where
  "descriptor_loop is_adb_interface mem desclength vid pid bufptr rs =
     (if bufptr < desclength then
        case loop_body is_adb_interface mem desclength vid pid bufptr rs of
          Break r rs' \<Rightarrow> Some (r, rs')
        | Continue bufptr' rs' \<Rightarrow>
            descriptor_loop is_adb_interface mem desclength vid pid bufptr' rs'
      else Some (No_match, rs))"

declare descriptor_loop.simps [code]

text \<open>
  What \<open>find_usb_device\<close> does with the bytes of one device node, from the length test to
  the end of the loop: the result for the device and the offsets read. \<open>desclength\<close> is
  the number of bytes a successful \<open>unix_read\<close> stored, at most 4096. A failed read,
  whose -1 the code stores in the \<open>size_t\<close> as the largest value so that \<open>bufend\<close> wraps
  around, is not covered by this definition.
\<close>

definition find_usb_device ::
  "(u16 \<Rightarrow> u16 \<Rightarrow> u8 \<Rightarrow> u8 \<Rightarrow> u8 \<Rightarrow> bool) \<Rightarrow> memory \<Rightarrow> nat \<Rightarrow> (parse_result \<times> nat list) option"
where
  "find_usb_device is_adb_interface mem desclength =
     (if desclength < USB_DT_DEVICE_SIZE + USB_DT_CONFIG_SIZE then Some (No_match, [])
      else if unat (mem 0) \<noteq> USB_DT_DEVICE_SIZE then Some (No_match, [0])
      else if mem 1 \<noteq> USB_DT_DEVICE then Some (No_match, [0, 1])
      else
        let vid = le16 mem 8;
            pid = le16 mem 10;
            config = USB_DT_DEVICE_SIZE
        in
          if unat (mem config) \<noteq> USB_DT_CONFIG_SIZE
          then Some (No_match, [0, 1, 8, 9, 10, 11, config])
          else if mem (config + 1) \<noteq> USB_DT_CONFIG
          then Some (No_match, [0, 1, 8, 9, 10, 11, config, config + 1])
          else descriptor_loop is_adb_interface mem desclength vid pid
                 (USB_DT_DEVICE_SIZE + USB_DT_CONFIG_SIZE)
                 [0, 1, 8, 9, 10, 11, config, config + 1])"

text \<open>A memory that holds the given bytes from offset 0 and zeros behind them.\<close>

definition bytes :: "u8 list \<Rightarrow> memory" where
  "bytes xs i = (if i < length xs then xs ! i else 0)"

text \<open>A well-formed device descriptor (18 bytes) followed by a well-formed configuration
  descriptor (9 bytes).\<close>

definition headers :: "u8 list" where
  "headers = [18, 1, 0, 2, 0, 0, 0, 64, 209, 24, 1, 0, 0, 1, 1, 2, 3, 1,
              9, 2, 32, 0, 1, 1, 0, 128, 50]"

text \<open>
  The descriptors of a device with one interface of class 255, subclass 66 and protocol 1
  and two bulk endpoints (in at address 129, out at address 1) with
  \<open>wMaxPacketSize = 64\<close>; and a predicate that accepts that interface signature.
\<close>

definition adb_descriptors :: "u8 list" where
  "adb_descriptors = headers @ [9, 4, 0, 0, 2, 255, 66, 1, 0,
                                7, 5, 129, 2, 64, 0, 0,
                                7, 5, 1, 2, 64, 0, 0]"

definition adb_signature :: "u16 \<Rightarrow> u16 \<Rightarrow> u8 \<Rightarrow> u8 \<Rightarrow> u8 \<Rightarrow> bool" where
  "adb_signature vid pid usb_class usb_subclass usb_protocol =
     (usb_class = 255 \<and> usb_subclass = 66 \<and> usb_protocol = 1)"

subsection \<open>Transport handles\<close>

text \<open>
  Modelled from the spec: the error numbers of \<open><errno.h>\<close>, the signal number of
  \<open><signal.h>\<close> and the request type of \<open><linux/usbdevice_fs.h>\<close> are not among the
  sources; the spec names them "invalid-state error", "timeout error", "interruption
  indication" and "disconnected-device completion status". The values are those of Linux.
\<close>

definition EINTR :: int where "EINTR = 4"
definition ENODEV :: int where "ENODEV = 19"
definition EINVAL :: int where "EINVAL = 22"
definition ETIMEDOUT :: int where "ETIMEDOUT = 110"
definition SIGALRM :: nat where "SIGALRM = 14"
definition USBDEVFS_URB_TYPE_BULK :: u8 where "USBDEVFS_URB_TYPE_BULK = 3"

text \<open>The members of \<open>usbdevfs_urb\<close> the code touches; \<open>memset\<close> zeroes the others and
  they stay zero. \<open>buffer\<close> is an address.\<close>

record usbdevfs_urb =
  urb_type :: u8
  endpoint :: u8
  status :: int
  buffer :: nat
  buffer_length :: int
  actual_length :: int

text \<open>\<open>struct usb_handle\<close>, the condition variable and the mutex apart. \<open>reaper_thread\<close>
  is 0 when no thread is in \<open>REAPURB\<close>. C \<open>int\<close> values are integers: no arithmetic of the
  code on them leaves the range of \<open>int\<close> for the values the kernel returns.\<close>

record usb_handle =
  path :: string
  fd :: int
  ep_in :: u8
  ep_out :: u8
  zero_mask :: u32
  writeable :: u32
  urb_in :: usbdevfs_urb
  urb_out :: usbdevfs_urb
  urb_in_busy :: bool
  urb_out_busy :: bool
  dead :: bool
  mark :: bool
  reaper_thread :: nat

datatype urb_ptr = Urb_in | Urb_out | Urb_other

text \<open>What a thread does to the outside. \<open>Lock\<close>, \<open>Unlock\<close> and \<open>Notify_all\<close> name the
  handle by its path, the ioctls by the file descriptor; \<open>Wait_until s\<close> is
  \<open>cv.wait_until(lock, now + s seconds)\<close>.\<close>

datatype action =
    Lock string
  | Unlock string
  | Submit_urb int usbdevfs_urb
  | Reap_urb int
  | Discard_urb int urb_ptr
  | Wait_until nat
  | Notify_all string
  | Pthread_kill nat nat
  | Unregister_usb_transport string
  | Register_usb_transport string string "string option" u32
  | Open_rdwr string
  | Open_rdonly string
  | Claim_interface int int
  | Read_file_to_string string
  | Close int

subsection \<open>\<open>usb_kick\<close> and \<open>kick_disconnected_devices\<close>\<close>

definition usb_kick :: "usb_handle \<Rightarrow> usb_handle \<times> action list" where
  "usb_kick h =
     (if \<not> dead h then
        let h1 = h\<lparr>dead := True\<rparr> in
        if writeable h1 \<noteq> 0 then
          (h1\<lparr>urb_in := (urb_in h1)\<lparr>status := - ENODEV\<rparr>,
              urb_out := (urb_out h1)\<lparr>status := - ENODEV\<rparr>,
              urb_in_busy := False, urb_out_busy := False\<rparr>,
           [Lock (path h)]
           @ (if reaper_thread h1 \<noteq> 0 then [Pthread_kill (reaper_thread h1) SIGALRM] else [])
           @ [Discard_urb (fd h1) Urb_in, Discard_urb (fd h1) Urb_out,
              Notify_all (path h), Unlock (path h)])
        else (h1, [Lock (path h), Unregister_usb_transport (path h), Unlock (path h)])
      else (h, [Lock (path h), Unlock (path h)]))"

text \<open>The registry \<open>g_usb_handles\<close> is the list of the handles in insertion order; every
  element is an object of its own. The loop runs under \<open>g_usb_handles_mutex\<close>.\<close>

fun kick_disconnected_devices :: "usb_handle list \<Rightarrow> usb_handle list \<times> action list" where
  "kick_disconnected_devices [] = ([], [])"
| "kick_disconnected_devices (usb # rest) =
     (let (usb', as) = (if \<not> mark usb then usb_kick usb else (usb\<lparr>mark := False\<rparr>, []));
          (rest', as') = kick_disconnected_devices rest
      in (usb' # rest', as @ as'))"

subsection \<open>The transfer calls\<close>

text \<open>
  A call returns a value (\<open>None\<close> when the script of the environment ends while the
  thread is still inside a wait or a reap), the thread's \<open>errno\<close>, the handle as the
  call leaves it and the actions of the thread.
\<close>

record call_result =
  ret :: "int option"
  errno :: int
  handle :: usb_handle
  actions :: "action list"

datatype cv_status = no_timeout | timeout

text \<open>A system call stores an error number in \<open>errno\<close> or leaves \<open>errno\<close> as it is.\<close>

definition set_errno :: "int option \<Rightarrow> int \<Rightarrow> int" where
  "set_errno e en = (case e of None \<Rightarrow> en | Some e' \<Rightarrow> e')"

text \<open>
  The environment of one \<open>usb_bulk_write\<close>: the value of
  \<open>TEMP_FAILURE_RETRY(ioctl(h->fd, USBDEVFS_SUBMITURB, urb))\<close> with the error number it
  stores, if any, and for each return of \<open>wait_until\<close> its status and what the other
  threads did to the handle while the waiting thread did not hold the mutex.
\<close>

record write_env =
  w_submit :: "int \<times> int option"
  w_wakes :: "(cv_status \<times> (usb_handle \<Rightarrow> usb_handle)) list"

fun write_wait ::
  "usb_handle \<Rightarrow> int \<Rightarrow> action list \<Rightarrow> (cv_status \<times> (usb_handle \<Rightarrow> usb_handle)) list \<Rightarrow> call_result"
where
  "write_wait h en as [] =
     \<lparr>ret = None, errno = en, handle = h, actions = as @ [Wait_until 5]\<rparr>"
| "write_wait h en as ((st, others) # wakes) =
     (let h' = others h;
          as' = as @ [Wait_until 5]
      in
        if st = timeout \<or> dead h' then
          \<lparr>ret = Some (- 1), errno = ETIMEDOUT, handle = h', actions = as' @ [Unlock (path h)]\<rparr>
        else if \<not> urb_out_busy h' then
          if status (urb_out h') \<noteq> 0 then
            \<lparr>ret = Some (- 1), errno = - status (urb_out h'), handle = h',
              actions = as' @ [Unlock (path h)]\<rparr>
          else
            \<lparr>ret = Some (actual_length (urb_out h')), errno = en, handle = h',
              actions = as' @ [Unlock (path h)]\<rparr>
        else write_wait h' en as' wakes)"

definition usb_bulk_write :: "usb_handle \<Rightarrow> nat \<Rightarrow> int \<Rightarrow> int \<Rightarrow> write_env \<Rightarrow> call_result" where
  "usb_bulk_write h data len en env =
     (let urb = \<lparr>urb_type = USBDEVFS_URB_TYPE_BULK, endpoint = ep_out h, status = - 1,
                 buffer = data, buffer_length = len, actual_length = 0\<rparr>;
          h1 = h\<lparr>urb_out := urb\<rparr>
      in
        if dead h1 then
          \<lparr>ret = Some (- 1), errno = EINVAL, handle = h1,
            actions = [Lock (path h), Unlock (path h)]\<rparr>
        else if fst (w_submit env) = - 1 then
          \<lparr>ret = Some (- 1), errno = set_errno (snd (w_submit env)) en, handle = h1,
            actions = [Lock (path h), Submit_urb (fd h1) urb, Unlock (path h)]\<rparr>
        else
          write_wait (h1\<lparr>urb_out_busy := True\<rparr>) (set_errno (snd (w_submit env)) en)
            [Lock (path h), Submit_urb (fd h1) urb] (w_wakes env))"

text \<open>
  The environment of one \<open>usb_bulk_read\<close>: \<open>pthread_self()\<close>, the answer to the
  submission, and for each return of \<open>ioctl(fd, USBDEVFS_REAPURB, &out)\<close> its value, the
  error number it stores, if any, the request \<open>out\<close> points to, and what the kernel and
  the other threads wrote into the handle while the mutex was released.
\<close>

record reap =
  res :: int
  reap_errno :: "int option"
  out :: urb_ptr
  written :: "usb_handle \<Rightarrow> usb_handle"

record read_env =
  r_self :: nat
  r_submit :: "int \<times> int option"
  r_reaps :: "reap list"

fun read_reap :: "nat \<Rightarrow> usb_handle \<Rightarrow> int \<Rightarrow> action list \<Rightarrow> reap list \<Rightarrow> call_result" where
  "read_reap self h en as [] =
     \<lparr>ret = None, errno = en, handle = h\<lparr>reaper_thread := self\<rparr>,
       actions = as @ [Unlock (path h), Reap_urb (fd h)]\<rparr>"
| "read_reap self h en as (r # reaps) =
     (let h' = (written r (h\<lparr>reaper_thread := self\<rparr>))\<lparr>reaper_thread := 0\<rparr>;
          saved_errno = set_errno (reap_errno r) en;
          as' = as @ [Unlock (path h), Reap_urb (fd h), Lock (path h)]
      in
        if dead h' then
          \<lparr>ret = Some (- 1), errno = EINVAL, handle = h', actions = as' @ [Unlock (path h)]\<rparr>
        else if res r < 0 then
          if saved_errno = EINTR then read_reap self h' saved_errno as' reaps
          else \<lparr>ret = Some (- 1), errno = saved_errno, handle = h',
                 actions = as' @ [Unlock (path h)]\<rparr>
        else if out r = Urb_in then
          let h'' = h'\<lparr>urb_in_busy := False\<rparr> in
          if status (urb_in h'') \<noteq> 0 then
            \<lparr>ret = Some (- 1), errno = - status (urb_in h''), handle = h'',
              actions = as' @ [Unlock (path h)]\<rparr>
          else
            \<lparr>ret = Some (actual_length (urb_in h'')), errno = saved_errno, handle = h'',
              actions = as' @ [Unlock (path h)]\<rparr>
        else if out r = Urb_out then
          read_reap self (h'\<lparr>urb_out_busy := False\<rparr>) saved_errno
            (as' @ [Notify_all (path h)]) reaps
        else read_reap self h' saved_errno as' reaps)"

definition usb_bulk_read :: "usb_handle \<Rightarrow> nat \<Rightarrow> int \<Rightarrow> int \<Rightarrow> read_env \<Rightarrow> call_result" where
  "usb_bulk_read h data len en env =
     (let urb = \<lparr>urb_type = USBDEVFS_URB_TYPE_BULK, endpoint = ep_in h, status = - 1,
                 buffer = data, buffer_length = len, actual_length = 0\<rparr>;
          h1 = h\<lparr>urb_in := urb\<rparr>
      in
        if dead h1 then
          \<lparr>ret = Some (- 1), errno = EINVAL, handle = h1,
            actions = [Lock (path h), Unlock (path h)]\<rparr>
        else if fst (r_submit env) = - 1 then
          \<lparr>ret = Some (- 1), errno = set_errno (snd (r_submit env)) en, handle = h1,
            actions = [Lock (path h), Submit_urb (fd h1) urb, Unlock (path h)]\<rparr>
        else
          read_reap (r_self env) (h1\<lparr>urb_in_busy := True\<rparr>) (set_errno (snd (r_submit env)) en)
            [Lock (path h), Submit_urb (fd h1) urb] (r_reaps env))"

text \<open>The actions of an earlier call come first.\<close>

definition after_actions :: "action list \<Rightarrow> call_result \<Rightarrow> call_result" where
  "after_actions as r = r\<lparr>actions := as @ actions r\<rparr>"

text \<open>
  \<open>usb_write\<close> calls \<open>usb_bulk_write\<close> once or twice; each call has its environment.
  \<open>len & h->zero_mask\<close> converts \<open>len\<close> to \<open>unsigned\<close>. In \<open>usb_write\<close> and
  \<open>usb_read\<close> a bulk call finds the handle as the bulk call before it left it: what other
  threads do to the handle is part of the environment of a bulk call, not of the time
  between two of them.
\<close>

definition usb_write ::
  "usb_handle \<Rightarrow> nat \<Rightarrow> int \<Rightarrow> int \<Rightarrow> write_env \<Rightarrow> write_env \<Rightarrow> call_result"
where
  "usb_write h data len en env1 env2 =
     (let r = usb_bulk_write h data len en env1 in
      case ret r of
        None \<Rightarrow> r
      | Some n \<Rightarrow>
          if n \<noteq> len then r\<lparr>ret := Some (- 1)\<rparr>
          else if zero_mask (handle r) \<noteq> 0 \<and> word_of_int len AND zero_mask (handle r) = 0
          then after_actions (actions r) (usb_bulk_write (handle r) data 0 (errno r) env2)
          else r\<lparr>ret := Some 0\<rparr>)"

text \<open>
  \<open>usb_read\<close> calls \<open>usb_bulk_read\<close> as often as the loop runs, the k-th call in the
  k-th environment of the list; when the list ends before the loop does, the call has not
  returned. Next to the result stand the values of the local variables \<open>data\<close> and \<open>len\<close>
  when the function is left.
\<close>

fun usb_read ::
  "usb_handle \<Rightarrow> nat \<Rightarrow> int \<Rightarrow> int \<Rightarrow> read_env list \<Rightarrow> call_result \<times> nat \<times> int"
where
  "usb_read h data len en envs =
     (if len > 0 then
        case envs of
          [] \<Rightarrow> (\<lparr>ret = None, errno = en, handle = h, actions = []\<rparr>, data, len)
        | env # rest \<Rightarrow>
            let xfer = len;
                r = usb_bulk_read h data xfer en env
            in
              (case ret r of
                 None \<Rightarrow> (r, data, len)
               | Some n \<Rightarrow>
                   if n \<noteq> xfer then
                     if errno r = ETIMEDOUT \<and> fd (handle r) \<noteq> - 1 then
                       let (data', len') = (if n > 0 then (data + nat n, len - n) else (data, len));
                           (r', d) = usb_read (handle r) data' len' (errno r) rest
                       in (after_actions (actions r) r', d)
                     else (r\<lparr>ret := Some (- 1)\<rparr>, data, len)
                   else
                     let (r', d) = usb_read (handle r) (data + nat xfer) (len - xfer) (errno r) rest
                     in (after_actions (actions r) r', d))
      else (\<lparr>ret = Some 0, errno = en, handle = h, actions = []\<rparr>, data, len))"

declare usb_read.simps [simp del]


subsection \<open>\<open>register_device\<close>\<close>

text \<open>
  What the system answers to one \<open>register_device\<close>: the two \<open>unix_open\<close> calls, the
  \<open>USBDEVFS_CLAIMINTERFACE\<close> ioctl and \<open>ReadFileToString\<close> (\<open>None\<close> when it returns
  false). \<open>new usb_handle\<close> leaves \<open>urb_in\<close> and \<open>urb_out\<close> as the allocator found them.
\<close>

record register_env =
  open_rdwr :: int
  open_rdonly :: int
  claim_interface :: int
  read_file_to_string :: "string \<Rightarrow> string option"
  new_urb_in :: usbdevfs_urb
  new_urb_out :: usbdevfs_urb

text \<open>The C string \<open>dev_path\<close> may be \<open>nullptr\<close>; \<open>dev_path + 4\<close> is then no string, and
  neither is it when the string has fewer than four characters.\<close>

datatype fault = Null_pointer_read | Read_behind_string

text \<open>
  \<open>android::base::Trim\<close> is defined outside this file and is a parameter. The handle is
  built as the constructor and the assignments build it; a \<open>return\<close> after a successful
  open destroys it, which closes the descriptor.
\<close>

definition register_device ::
  "(string \<Rightarrow> string) \<Rightarrow> usb_handle list \<Rightarrow> string \<Rightarrow> string option \<Rightarrow> u8 \<Rightarrow> u8 \<Rightarrow> int \<Rightarrow> int
     \<Rightarrow> u32 \<Rightarrow> register_env \<Rightarrow> fault + usb_handle list \<times> action list"
where
  "register_device Trim g_usb_handles dev_name dev_path ep_in' ep_out' interface serial_index
       zero_mask' env =
     (if list_ex (\<lambda>usb. path usb = dev_name) g_usb_handles then Inr (g_usb_handles, [])
      else
        let usb = \<lparr>path = dev_name, fd = open_rdwr env, ep_in = ep_in', ep_out = ep_out',
                   zero_mask = zero_mask', writeable = 1, urb_in = new_urb_in env,
                   urb_out = new_urb_out env, urb_in_busy = False, urb_out_busy = False,
                   dead = False, mark = True, reaper_thread = 0\<rparr>
        in
          if fd usb = - 1 \<and> open_rdonly env = - 1
          then Inr (g_usb_handles, [Open_rdwr dev_name, Open_rdonly dev_name])
          else
            let (usb, as) =
                  (if fd usb = - 1
                   then (usb\<lparr>fd := open_rdonly env, writeable := 0\<rparr>,
                         [Open_rdwr dev_name, Open_rdonly dev_name])
                   else (usb, [Open_rdwr dev_name]))
            in
              if writeable usb \<noteq> 0 \<and> claim_interface env \<noteq> 0
              then Inr (g_usb_handles, as @ [Claim_interface (fd usb) interface, Close (fd usb)])
              else
                let as = as @ (if writeable usb \<noteq> 0
                               then [Claim_interface (fd usb) interface] else [])
                in
                  case dev_path of
                    None \<Rightarrow> Inl Null_pointer_read
                  | Some p \<Rightarrow>
                      if length p < 4 then Inl Read_behind_string
                      else
                        let serial_path = ''/sys/bus/usb/devices/'' @ drop 4 p @ ''/serial'';
                            serial = (case read_file_to_string env serial_path of
                                        None \<Rightarrow> [] | Some s \<Rightarrow> s);
                            serial = Trim serial
                        in Inr (g_usb_handles @ [usb],
                                as @ [Read_file_to_string serial_path,
                                      Register_usb_transport dev_name serial dev_path
                                        (writeable usb)]))"

text \<open>One call of the registration callback: its arguments and the answers of the
  system to it.\<close>

record register_call =
  c_dev_name :: string
  c_dev_path :: "string option"
  c_ep_in :: u8
  c_ep_out :: u8
  c_interface :: int
  c_serial_index :: int
  c_zero_mask :: u32
  c_env :: register_env

text \<open>A sequence of calls, each on the registry the one before left; a fault ends it.\<close>

fun register_devices ::
  "(string \<Rightarrow> string) \<Rightarrow> usb_handle list \<Rightarrow> register_call list \<Rightarrow> fault + usb_handle list"
where
  "register_devices Trim g_usb_handles [] = Inr g_usb_handles"
| "register_devices Trim g_usb_handles (c # cs) =
     (case register_device Trim g_usb_handles (c_dev_name c) (c_dev_path c) (c_ep_in c)
             (c_ep_out c) (c_interface c) (c_serial_index c) (c_zero_mask c) (c_env c) of
        Inl f \<Rightarrow> Inl f
      | Inr (g_usb_handles', as) \<Rightarrow> register_devices Trim g_usb_handles' cs)"

subsection \<open>Concrete handles and environments\<close>

definition zero_urb :: usbdevfs_urb where
  "zero_urb = \<lparr>urb_type = 0, endpoint = 0, status = 0, buffer = 0, buffer_length = 0,
                actual_length = 0\<rparr>"

text \<open>A live, writable handle of a device with \<open>bInterfaceProtocol = 1\<close> and
  \<open>wMaxPacketSize = 64\<close>.\<close>

definition handle64 :: usb_handle where
  "handle64 = \<lparr>path = ''/dev/bus/usb/001/002'', fd = 7, ep_in = 129, ep_out = 1,
                zero_mask = 63, writeable = 1, urb_in = zero_urb, urb_out = zero_urb,
                urb_in_busy = False, urb_out_busy = False, dead = False, mark = True,
                reaper_thread = 0\<rparr>"

text \<open>The kernel completes the out-request with the given status and count; the reaping
  thread clears the busy flag and notifies.\<close>

definition out_done :: "int \<Rightarrow> int \<Rightarrow> usb_handle \<Rightarrow> usb_handle" where
  "out_done st n h = h\<lparr>urb_out := (urb_out h)\<lparr>status := st, actual_length := n\<rparr>,
                       urb_out_busy := False\<rparr>"

definition write_done :: "int \<Rightarrow> write_env" where
  "write_done n = \<lparr>w_submit = (0, None), w_wakes = [(no_timeout, out_done 0 n)]\<rparr>"

text \<open>The submission is accepted and the first wait runs into its deadline.\<close>

definition write_times_out :: write_env where
  "write_times_out = \<lparr>w_submit = (0, None), w_wakes = [(timeout, \<lambda>h. h)]\<rparr>"

text \<open>The submission is accepted, the first wait ends for no reason, and during the
  second the scanning thread kicks the handle.\<close>

definition write_kicked :: write_env where
  "write_kicked = \<lparr>w_submit = (0, None),
                    w_wakes = [(no_timeout, \<lambda>h. h), (no_timeout, \<lambda>h. fst (usb_kick h))]\<rparr>"

text \<open>The kernel completes the in-request with the given status and count; both
  ioctls succeed and leave \<open>errno\<close> as it is.\<close>

definition in_done :: "int \<Rightarrow> int \<Rightarrow> usb_handle \<Rightarrow> usb_handle" where
  "in_done st n h = h\<lparr>urb_in := (urb_in h)\<lparr>status := st, actual_length := n\<rparr>\<rparr>"

definition read_done :: "int \<Rightarrow> int \<Rightarrow> read_env" where
  "read_done st n =
     \<lparr>r_self = 1, r_submit = (0, None),
       r_reaps = [\<lparr>res = 0, reap_errno = None, out = Urb_in, written = in_done st n\<rparr>]\<rparr>"

text \<open>The node opens read-write, the claim succeeds, no serial file can be read.\<close>

definition opens_and_claims :: register_env where
  "opens_and_claims = \<lparr>open_rdwr = 7, open_rdonly = 8, claim_interface = 0,
                        read_file_to_string = (\<lambda>_. None), new_urb_in = zero_urb,
                        new_urb_out = zero_urb\<rparr>"

definition announce :: "string \<Rightarrow> string option \<Rightarrow> register_call" where
  "announce name dev_path = \<lparr>c_dev_name = name, c_dev_path = dev_path, c_ep_in = 129,
                             c_ep_out = 1, c_interface = 0, c_serial_index = 3,
                             c_zero_mask = 63, c_env = opens_and_claims\<rparr>"

text \<open>A registry after a scan that found the first device again and none of the other
  three: a writable handle with a thread in \<open>REAPURB\<close>, a read-only handle, and a handle
  that is dead already.\<close>

definition registry4 :: "usb_handle list" where
  "registry4 =
     [handle64,
      handle64\<lparr>path := ''/dev/bus/usb/001/003'', fd := 8, mark := False, reaper_thread := 5\<rparr>,
      handle64\<lparr>path := ''/dev/bus/usb/001/004'', fd := 9, mark := False, writeable := 0\<rparr>,
      handle64\<lparr>path := ''/dev/bus/usb/001/005'', fd := 10, mark := False, writeable := 0,
                dead := True\<rparr>]"

text \<open>The buffers and requested lengths of the transfers submitted to the kernel, in
  order.\<close>

fun submitted :: "action list \<Rightarrow> (nat \<times> int) list" where
  "submitted [] = []"
| "submitted (Submit_urb f u # as) = (buffer u, buffer_length u) # submitted as"
| "submitted (a # as) = submitted as"


section \<open>Properties\<close>

subsection \<open>The descriptor walk\<close>

lemma short_buffer_rejected:
  "desclength < 27 \<Longrightarrow> find_usb_device is_adb mem desclength = Some (No_match, [])"
  by (simp add: find_usb_device_def usb_consts)

text \<open>
  C1. The claim is that the walk only reads offsets strictly below the supplied length.
  The code reads \<open>bufptr[1]\<close> when it has only checked \<open>bufptr < bufend\<close>, and the fields
  of an interface descriptor without any check. With 28 bytes (the two headers and one
  byte) the walk reads offset 28; with 29 bytes whose last two announce an interface
  descriptor it reads offset 31.
\<close>

theorem find_usb_device_reads_behind_desclength:
  "find_usb_device is_adb (bytes (headers @ [1])) 28
     = Some (No_match, [0, 1, 8, 9, 10, 11, 18, 19, 27, 28])
   \<and> find_usb_device is_adb (bytes (headers @ [9, 4])) 29
     = Some (No_match, [0, 1, 8, 9, 10, 11, 18, 19, 27, 28, 31])"
  by (simp add: find_usb_device_def descriptor_loop.simps loop_body_def bytes_def headers_def
      usb_consts)

text \<open>A record below \<open>bufend\<close> that is no interface descriptor and declares the length 0
  leaves \<open>bufptr\<close> where it is, so no run of the loop from there returns.\<close>

lemma zero_length_record_stays:
  assumes run: "descriptor_loop is_adb mem desclength vid pid bufptr rs = Some y"
  shows "\<not> (bufptr < desclength \<and> mem (bufptr + 1) \<noteq> USB_DT_INTERFACE \<and> mem bufptr = 0)"
proof (rule descriptor_loop.raw_induct
    [where P = "\<lambda>f m d v p q rs y. \<not> (q < d \<and> m (q + 1) \<noteq> USB_DT_INTERFACE \<and> m q = 0)",
     OF _ run])
  fix loop :: "(u16 \<Rightarrow> u16 \<Rightarrow> u8 \<Rightarrow> u8 \<Rightarrow> u8 \<Rightarrow> bool) \<Rightarrow> memory \<Rightarrow> nat \<Rightarrow> u16 \<Rightarrow> u16 \<Rightarrow> nat
      \<Rightarrow> nat list \<Rightarrow> (parse_result \<times> nat list) option"
    and is_adb mem desclength vid pid bufptr rs y
  assume IH: "\<And>is_adb mem desclength vid pid bufptr rs y.
      loop is_adb mem desclength vid pid bufptr rs = Some y \<Longrightarrow>
      \<not> (bufptr < desclength \<and> mem (bufptr + 1) \<noteq> USB_DT_INTERFACE \<and> mem bufptr = 0)"
  assume body: "(if bufptr < desclength then
        case loop_body is_adb mem desclength vid pid bufptr rs of
          Break r rs' \<Rightarrow> Some (r, rs')
        | Continue bufptr' rs' \<Rightarrow> loop is_adb mem desclength vid pid bufptr' rs'
      else Some (No_match, rs)) = Some y"
  show "\<not> (bufptr < desclength \<and> mem (bufptr + 1) \<noteq> USB_DT_INTERFACE \<and> mem bufptr = 0)"
  proof
    assume a: "bufptr < desclength \<and> mem (bufptr + 1) \<noteq> USB_DT_INTERFACE \<and> mem bufptr = 0"
    with body
    have again: "loop is_adb mem desclength vid pid bufptr (rs @ [bufptr, bufptr + 1]) = Some y"
      by (simp add: loop_body_def)
    have "\<not> (bufptr < desclength \<and> mem (bufptr + 1) \<noteq> USB_DT_INTERFACE \<and> mem bufptr = 0)"
      by (rule IH) (rule again)
    with a show False by blast
  qed
qed

text \<open>
  C2. The claim is that the walk ends on every buffer, a record of declared length zero
  included. On the two headers followed by the bytes 0 and 5 (length 0, type endpoint),
  with the length 29, the walk does not return.
\<close>

theorem find_usb_device_zero_length_record:
  "find_usb_device is_adb (bytes (headers @ [0, 5])) 29 = None"
proof (cases "find_usb_device is_adb (bytes (headers @ [0, 5])) 29")
  case None
  then show ?thesis .
next
  case (Some y)
  then have "descriptor_loop is_adb (bytes (headers @ [0, 5])) 29
      (le16 (bytes (headers @ [0, 5])) 8) (le16 (bytes (headers @ [0, 5])) 10) 27
      [0, 1, 8, 9, 10, 11, 18, 19] = Some y"
    by (simp add: find_usb_device_def bytes_def headers_def usb_consts)
  from zero_length_record_stays [OF this] show ?thesis
    by (simp add: bytes_def headers_def usb_consts)
qed

text \<open>Where no record below \<open>bufend\<close> other than an interface descriptor declares the
  length 0, every pass through the loop ends it or moves \<open>bufptr\<close> forward, and the loop
  returns.\<close>

lemma skip_ss_ep_comp_advances: "bufptr \<le> fst (skip_ss_ep_comp mem desclength bufptr)"
  by (simp add: skip_ss_ep_comp_def)

lemma look_for_endpoints_advances:
  "look_for_endpoints mem desclength interface bufptr rs = Continue bufptr' rs' \<Longrightarrow>
   bufptr < bufptr'"
  using skip_ss_ep_comp_advances [of "bufptr + USB_DT_ENDPOINT_SIZE" mem desclength]
    skip_ss_ep_comp_advances
      [of "fst (skip_ss_ep_comp mem desclength (bufptr + USB_DT_ENDPOINT_SIZE)) + USB_DT_ENDPOINT_SIZE"
        mem desclength]
  by (auto simp: look_for_endpoints_def Let_def split_def USB_DT_ENDPOINT_SIZE_def
      split: if_splits)

lemma loop_body_advances:
  "loop_body is_adb mem desclength vid pid bufptr rs = Continue bufptr' rs' \<Longrightarrow>
   mem (bufptr + 1) = USB_DT_INTERFACE \<or> mem bufptr \<noteq> 0 \<Longrightarrow> bufptr < bufptr'"
  by (auto simp: loop_body_def Let_def USB_DT_INTERFACE_SIZE_def unat_gt_0
      dest!: look_for_endpoints_advances split: if_splits)

lemma descriptor_loop_returns:
  assumes nonzero: "\<And>p. p < desclength \<Longrightarrow> mem (p + 1) = USB_DT_INTERFACE \<or> mem p \<noteq> 0"
  shows "\<exists>y. descriptor_loop is_adb mem desclength vid pid bufptr rs = Some y"
proof (induction "desclength - bufptr" arbitrary: bufptr rs rule: less_induct)
  case less
  show ?case
  proof (cases "bufptr < desclength")
    case False
    then show ?thesis by (subst descriptor_loop.simps) simp
  next
    case True
    show ?thesis
    proof (cases "loop_body is_adb mem desclength vid pid bufptr rs")
      case (Break r rs')
      with True show ?thesis by (subst descriptor_loop.simps) simp
    next
      case (Continue bufptr' rs')
      from loop_body_advances [OF Continue nonzero [OF True]] True
      have "desclength - bufptr' < desclength - bufptr" by simp
      from less [OF this] Continue True show ?thesis
        by (subst descriptor_loop.simps) simp
    qed
  qed
qed

subsection \<open>Dead handles\<close>

text \<open>
  C8, as the code has it. On a dead handle \<open>usb_bulk_write\<close> and \<open>usb_bulk_read\<close> return
  -1 with \<open>errno\<close> \<open>EINVAL\<close>, whatever their arguments; the thread takes and releases the
  mutex and does nothing else: it submits no request, waits on no condition and reaps
  nothing. The handle stays dead. \<open>usb_write\<close> of a length that is not negative and
  \<open>usb_read\<close> of a positive length make that one bulk call and fail with its result.
\<close>

theorem dead_handle_fails:
  "dead h \<Longrightarrow>
     usb_bulk_write h data len en wenv =
       \<lparr>ret = Some (- 1), errno = EINVAL,
         handle = h\<lparr>urb_out := \<lparr>urb_type = USBDEVFS_URB_TYPE_BULK, endpoint = ep_out h,
                                status = - 1, buffer = data, buffer_length = len,
                                actual_length = 0\<rparr>\<rparr>,
         actions = [Lock (path h), Unlock (path h)]\<rparr>
   \<and> usb_bulk_read h data len en renv =
       \<lparr>ret = Some (- 1), errno = EINVAL,
         handle = h\<lparr>urb_in := \<lparr>urb_type = USBDEVFS_URB_TYPE_BULK, endpoint = ep_in h,
                               status = - 1, buffer = data, buffer_length = len,
                               actual_length = 0\<rparr>\<rparr>,
         actions = [Lock (path h), Unlock (path h)]\<rparr>
   \<and> (0 \<le> len \<longrightarrow>
        usb_write h data len en wenv wenv' = usb_bulk_write h data len en wenv)
   \<and> (0 < len \<longrightarrow>
        usb_read h data len en (renv # rest) = (usb_bulk_read h data len en renv, data, len))"
  by (simp add: usb_write_def usb_read.simps usb_bulk_write_def usb_bulk_read_def Let_def
      EINVAL_def ETIMEDOUT_def)

theorem dead_handle_fails_witness:
  "dead (handle64\<lparr>dead := True\<rparr>)
   \<and> ret (usb_bulk_write (handle64\<lparr>dead := True\<rparr>) 4096 100 0 (write_done 100)) = Some (- 1)
   \<and> errno (usb_bulk_write (handle64\<lparr>dead := True\<rparr>) 4096 100 0 (write_done 100)) = 22
   \<and> actions (usb_bulk_write (handle64\<lparr>dead := True\<rparr>) 4096 100 0 (write_done 100))
       = [Lock ''/dev/bus/usb/001/002'', Unlock ''/dev/bus/usb/001/002'']
   \<and> ret (usb_bulk_read (handle64\<lparr>dead := True\<rparr>) 4096 100 0 (read_done 0 100)) = Some (- 1)
   \<and> errno (usb_bulk_read (handle64\<lparr>dead := True\<rparr>) 4096 100 0 (read_done 0 100)) = 22
   \<and> actions (usb_bulk_read (handle64\<lparr>dead := True\<rparr>) 4096 100 0 (read_done 0 100))
       = [Lock ''/dev/bus/usb/001/002'', Unlock ''/dev/bus/usb/001/002'']
   \<and> (0::int) \<le> 100
   \<and> ret (usb_write (handle64\<lparr>dead := True\<rparr>) 4096 100 0 (write_done 100) (write_done 0))
       = Some (- 1)
   \<and> actions (usb_write (handle64\<lparr>dead := True\<rparr>) 4096 100 0 (write_done 100) (write_done 0))
       = [Lock ''/dev/bus/usb/001/002'', Unlock ''/dev/bus/usb/001/002'']
   \<and> ret (fst (usb_read (handle64\<lparr>dead := True\<rparr>) 4096 100 0 [read_done 0 100])) = Some (- 1)
   \<and> actions (fst (usb_read (handle64\<lparr>dead := True\<rparr>) 4096 100 0 [read_done 0 100]))
       = [Lock ''/dev/bus/usb/001/002'', Unlock ''/dev/bus/usb/001/002'']"
  using dead_handle_fails [where h = "handle64\<lparr>dead := True\<rparr>" and data = 4096 and len = 100
      and en = 0 and wenv = "write_done 100" and wenv' = "write_done 0"
      and renv = "read_done 0 100" and rest = "[]"]
  by (simp add: handle64_def EINVAL_def)

text \<open>
  The claim as written speaks of every read and write call. The dead flag is tested in
  the two bulk calls only, so a stream call that makes no bulk call, or that takes the
  -1 of the bulk call for the count it asked for, does not fail: on a dead handle
  \<open>usb_read\<close> of length 0 returns 0 without any action, and \<open>usb_write\<close> of length -1
  returns 0.
\<close>

theorem dead_handle_stream_calls_succeed:
  "dead (handle64\<lparr>dead := True\<rparr>)
   \<and> ret (fst (usb_read (handle64\<lparr>dead := True\<rparr>) 4096 0 0 [read_done 0 0])) = Some 0
   \<and> actions (fst (usb_read (handle64\<lparr>dead := True\<rparr>) 4096 0 0 [read_done 0 0])) = []
   \<and> ret (usb_write (handle64\<lparr>dead := True\<rparr>) 4096 (- 1) 0 (write_done 0) (write_done 0))
       = Some 0"
  by (simp add: usb_read.simps usb_write_def usb_bulk_write_def handle64_def Let_def)

subsection \<open>Stream reads of length zero\<close>

text \<open>
  C10. \<open>usb_read\<close> with the length 0 returns 0 at once: the thread does nothing (it takes
  no mutex and submits nothing), \<open>errno\<close> and the handle are as before, and the dead flag
  plays no part, so the call succeeds on a dead handle too.
\<close>

theorem usb_read_zero_length:
  "usb_read h data 0 en envs = (\<lparr>ret = Some 0, errno = en, handle = h, actions = []\<rparr>, data, 0)
   \<and> usb_read (h\<lparr>dead := True\<rparr>) data 0 en envs
       = (\<lparr>ret = Some 0, errno = en, handle = h\<lparr>dead := True\<rparr>, actions = []\<rparr>, data, 0)"
  by (simp add: usb_read.simps)

subsection \<open>Registration\<close>

lemma register_device_known:
  "list_ex (\<lambda>usb. path usb = dev_name) reg \<Longrightarrow>
   register_device Trim reg dev_name dev_path ei eo interface serial_index zm env = Inr (reg, [])"
  by (simp add: register_device_def)

lemma register_device_distinct:
  assumes "distinct (map path reg)"
    and "register_device Trim reg dev_name dev_path ei eo interface serial_index zm env
           = Inr (reg', as)"
  shows "distinct (map path reg')"
  using assms
  by (auto simp: register_device_def Let_def list_ex_iff split: if_splits option.splits)

lemma register_devices_distinct:
  "distinct (map path reg) \<Longrightarrow> register_devices Trim reg calls = Inr reg' \<Longrightarrow>
   distinct (map path reg')"
proof (induction calls arbitrary: reg)
  case Nil
  then show ?case by simp
next
  case (Cons c cs)
  from Cons.prems(2) obtain reg1 as where
    one: "register_device Trim reg (c_dev_name c) (c_dev_path c) (c_ep_in c) (c_ep_out c)
            (c_interface c) (c_serial_index c) (c_zero_mask c) (c_env c) = Inr (reg1, as)"
    and more: "register_devices Trim reg1 cs = Inr reg'"
    by (auto split: sum.splits)
  from register_device_distinct [OF Cons.prems(1) one] have "distinct (map path reg1)" .
  from Cons.IH [OF this more] show ?case .
qed

lemma one_handle_per_path:
  "distinct (map path reg) \<Longrightarrow> list_ex (\<lambda>usb. path usb = p) reg \<Longrightarrow>
   length (filter (\<lambda>usb. path usb = p) reg) = 1"
proof (induction reg)
  case Nil
  then show ?case by simp
next
  case (Cons a reg)
  show ?case
  proof (cases "path a = p")
    case True
    from Cons.prems have "path a \<notin> path ` set reg" by simp
    with True have "\<And>x. x \<in> set reg \<Longrightarrow> path x \<noteq> p" by (metis imageI)
    then have "filter (\<lambda>usb. path usb = p) reg = []"
      by (simp add: filter_empty_conv)
    with True show ?thesis by simp
  next
    case False
    with Cons show ?thesis by simp
  qed
qed

text \<open>
  C7. When the registry holds a handle for the path, \<open>register_device\<close> returns with
  the registry as it was and does nothing. A registry with at most one handle per path
  keeps that property through any sequence of \<open>register_device\<close> calls that is not cut
  short by a fault. Two calls for a path the registry already holds leave the registry
  as it was, with exactly one handle for the path.
\<close>

theorem register_device_idempotent:
  "(list_ex (\<lambda>usb. path usb = dev_name) reg \<longrightarrow>
      register_device Trim reg dev_name dev_path ei eo interface serial_index zm env
        = Inr (reg, []))
   \<and> (distinct (map path reg) \<and> register_devices Trim reg calls = Inr reg' \<longrightarrow>
        distinct (map path reg'))
   \<and> (distinct (map path reg) \<and> list_ex (\<lambda>usb. path usb = pathA) reg
        \<and> c_dev_name c1 = pathA \<and> c_dev_name c2 = pathA \<longrightarrow>
        register_devices Trim reg [c1, c2] = Inr reg
        \<and> length (filter (\<lambda>usb. path usb = pathA) reg) = 1)"
  using register_devices_distinct [of reg Trim calls reg'] one_handle_per_path [of reg pathA]
  by (auto simp: register_device_known)


theorem register_device_idempotent_witness:
  "list_ex (\<lambda>usb. path usb = ''/dev/bus/usb/001/002'') [handle64]
   \<and> register_device (\<lambda>s. s) [handle64] ''/dev/bus/usb/001/002'' (Some ''usb:1-1'') 129 1 0 3 63
         opens_and_claims = Inr ([handle64], [])
   \<and> distinct (map path [handle64])
   \<and> register_devices (\<lambda>s. s) [handle64]
         [announce ''/dev/bus/usb/001/002'' (Some ''usb:1-1''),
          announce ''/dev/bus/usb/001/002'' (Some ''usb:1-1'')] = Inr [handle64]
   \<and> length (filter (\<lambda>usb. path usb = ''/dev/bus/usb/001/002'') [handle64]) = 1
   \<and> map path (projr (register_devices (\<lambda>s. s) []
         [announce ''/dev/bus/usb/001/002'' (Some ''usb:1-1''),
          announce ''/dev/bus/usb/001/003'' (Some ''usb:1-2''),
          announce ''/dev/bus/usb/001/002'' (Some ''usb:1-1'')]))
       = [''/dev/bus/usb/001/002'', ''/dev/bus/usb/001/003'']"
  using register_device_idempotent [where reg = "[handle64]" and Trim = "\<lambda>s. s"
      and dev_name = "''/dev/bus/usb/001/002''" and dev_path = "Some ''usb:1-1''" and ei = 129
      and eo = 1 and interface = 0 and serial_index = 3 and zm = 63 and env = opens_and_claims
      and calls = "[announce ''/dev/bus/usb/001/002'' (Some ''usb:1-1'')]"
      and reg' = "[handle64]" and pathA = "''/dev/bus/usb/001/002''"
      and ?c1.0 = "announce ''/dev/bus/usb/001/002'' (Some ''usb:1-1'')"
      and ?c2.0 = "announce ''/dev/bus/usb/001/002'' (Some ''usb:1-1'')"]
  by (simp add: handle64_def announce_def register_device_def opens_and_claims_def Let_def)

text \<open>
  C9. The claim is that registration completes when the scanner resolved no stable
  path. \<open>find_usb_device\<close> then passes \<open>nullptr\<close>, and \<open>register_device\<close>, once the node is
  open and the interface claimed, forms \<open>dev_path + 4\<close> and prints it as a string: the
  call faults and the handle is not inserted.
\<close>

theorem register_device_null_dev_path:
  "register_device Trim [] ''/dev/bus/usb/001/002'' None 129 1 0 3 63 opens_and_claims
     = Inl Null_pointer_read"
  by (simp add: register_device_def opens_and_claims_def)

text \<open>With a stable path of the form \<open>usb:...\<close> the registration does complete when the
  serial file cannot be read: the handle is appended, marked, and the transport layer is
  given the trimmed empty string as the serial.\<close>

lemma register_device_without_serial:
  assumes "\<not> list_ex (\<lambda>usb. path usb = dev_name) reg"
    and "open_rdwr env \<noteq> - 1" and "claim_interface env = 0"
    and "4 \<le> length p"
    and "read_file_to_string env (''/sys/bus/usb/devices/'' @ drop 4 p @ ''/serial'') = None"
  shows "\<exists>usb as. register_device Trim reg dev_name (Some p) ei eo interface serial_index zm env
            = Inr (reg @ [usb], as @ [Register_usb_transport dev_name (Trim []) (Some p) 1])
          \<and> path usb = dev_name \<and> mark usb \<and> \<not> dead usb \<and> fd usb = open_rdwr env"
  using assms by (simp add: register_device_def Let_def)


subsection \<open>The sweep after a scan\<close>

lemma kick_handles:
  "fst (kick_disconnected_devices hs)
     = map (\<lambda>h. if \<not> mark h then fst (usb_kick h) else h\<lparr>mark := False\<rparr>) hs"
  by (induction hs) (auto simp: split_def Let_def)

lemma usb_kick_counts:
  "count_list (snd (usb_kick h)) (Lock p) = (if p = path h then 1 else 0)"
  "count_list (snd (usb_kick h)) (Unregister_usb_transport p)
     = (if p = path h \<and> \<not> dead h \<and> writeable h = 0 then 1 else 0)"
  by (auto simp: usb_kick_def Let_def)

lemma kick_counts_absent:
  assumes "p \<notin> path ` set hs"
  shows "count_list (snd (kick_disconnected_devices hs)) (Lock p) = 0"
    and "count_list (snd (kick_disconnected_devices hs)) (Unregister_usb_transport p) = 0"
  using assms by (induction hs) (auto simp: split_def Let_def usb_kick_counts)

lemma kick_counts_present:
  assumes "distinct (map path hs)" and "i < length hs"
  shows "count_list (snd (kick_disconnected_devices hs)) (Lock (path (hs ! i)))
           = (if mark (hs ! i) then 0 else 1)
       \<and> count_list (snd (kick_disconnected_devices hs)) (Unregister_usb_transport (path (hs ! i)))
           = (if \<not> mark (hs ! i) \<and> \<not> dead (hs ! i) \<and> writeable (hs ! i) = 0 then 1 else 0)"
  using assms
proof (induction hs arbitrary: i)
  case Nil
  then show ?case by simp
next
  case (Cons a hs)
  show ?case
  proof (cases i)
    case 0
    from Cons.prems have "path a \<notin> path ` set hs" by simp
    from kick_counts_absent [OF this] 0 show ?thesis
      by (simp add: split_def Let_def usb_kick_counts)
  next
    case (Suc j)
    with Cons.prems have j: "j < length hs" and d: "distinct (map path hs)"
      and a: "path a \<notin> path ` set hs"
      by auto
    from j have "path (hs ! j) \<in> path ` set hs" by simp
    with a have ne: "path (hs ! j) \<noteq> path a" by metis
    from Cons.IH [OF d j] ne Suc show ?thesis
      by (simp add: split_def Let_def usb_kick_counts)
  qed
qed

text \<open>
  C3. One \<open>kick_disconnected_devices\<close> on a registry with one handle per path. The
  handle at any position \<open>i\<close>: when its mark is set, only the mark is cleared and
  \<open>usb_kick\<close> does not touch it (its mutex is never taken); when its mark is not set,
  \<open>usb_kick\<close> runs on it once, and it is dead and still unmarked afterwards. A dead
  handle stays dead, and an unmarked handle that was dead already is left as it was.
  \<open>unregister_usb_transport\<close> is called for the handle once when it is unmarked, alive
  and read-only, and not at all otherwise.
\<close>

theorem kick_disconnected_devices_sweep:
  assumes dist: "distinct (map path hs)"
    and run: "kick_disconnected_devices hs = (hs', as)"
    and i: "i < length hs"
  shows "length hs' = length hs
     \<and> (if mark (hs ! i)
         then hs' ! i = (hs ! i)\<lparr>mark := False\<rparr> \<and> count_list as (Lock (path (hs ! i))) = 0
         else hs' ! i = fst (usb_kick (hs ! i)) \<and> dead (hs' ! i) \<and> \<not> mark (hs' ! i)
              \<and> count_list as (Lock (path (hs ! i))) = 1)
     \<and> (dead (hs ! i) \<longrightarrow> dead (hs' ! i))
     \<and> (\<not> mark (hs ! i) \<and> dead (hs ! i) \<longrightarrow> hs' ! i = hs ! i)
     \<and> count_list as (Unregister_usb_transport (path (hs ! i)))
         = (if \<not> mark (hs ! i) \<and> \<not> dead (hs ! i) \<and> writeable (hs ! i) = 0 then 1 else 0)"
proof -
  from run have hs': "hs' = map (\<lambda>h. if \<not> mark h then fst (usb_kick h) else h\<lparr>mark := False\<rparr>) hs"
    and as: "as = snd (kick_disconnected_devices hs)"
    using kick_handles [of hs] by simp_all
  have kicked: "dead (fst (usb_kick h))" "mark (fst (usb_kick h)) = mark h"
    "dead h \<Longrightarrow> fst (usb_kick h) = h" for h
    by (simp_all add: usb_kick_def Let_def)
  from kick_counts_present [OF dist i] hs' as i kicked show ?thesis
    by simp
qed

theorem kick_disconnected_devices_sweep_witness:
  "distinct (map path registry4)
   \<and> kick_disconnected_devices registry4
       = (fst (kick_disconnected_devices registry4), snd (kick_disconnected_devices registry4))
   \<and> (2::nat) < length registry4
   \<and> \<not> mark (registry4 ! 2) \<and> \<not> dead (registry4 ! 2)
   \<and> dead (fst (kick_disconnected_devices registry4) ! 2)
   \<and> count_list (snd (kick_disconnected_devices registry4))
        (Unregister_usb_transport ''/dev/bus/usb/001/004'') = 1
   \<and> mark (registry4 ! 0)
   \<and> fst (kick_disconnected_devices registry4) ! 0 = handle64\<lparr>mark := False\<rparr>
   \<and> dead (registry4 ! 3)
   \<and> fst (kick_disconnected_devices registry4) ! 3 = registry4 ! 3
   \<and> count_list (snd (kick_disconnected_devices registry4))
        (Unregister_usb_transport ''/dev/bus/usb/001/005'') = 0"
  using kick_disconnected_devices_sweep [where hs = registry4
      and hs' = "fst (kick_disconnected_devices registry4)"
      and as = "snd (kick_disconnected_devices registry4)" and i = 2]
    kick_disconnected_devices_sweep [where hs = registry4
      and hs' = "fst (kick_disconnected_devices registry4)"
      and as = "snd (kick_disconnected_devices registry4)" and i = 0]
    kick_disconnected_devices_sweep [where hs = registry4
      and hs' = "fst (kick_disconnected_devices registry4)"
      and as = "snd (kick_disconnected_devices registry4)" and i = 3]
  by (simp add: registry4_def handle64_def usb_kick_def Let_def)

subsection \<open>A bulk write that runs into its deadline\<close>

lemma write_wait_blocked_actions:
  "ret (write_wait h en as ws) = None \<Longrightarrow>
   actions (write_wait h en as ws) = as @ replicate (Suc (length ws)) (Wait_until 5)"
proof (induction ws arbitrary: h as)
  case Nil
  then show ?case by simp
next
  case (Cons w ws)
  obtain st others where w: "w = (st, others)" by (cases w)
  from Cons.prems w have "ret (write_wait (others h) en (as @ [Wait_until 5]) ws) = None"
    by (simp add: Let_def split: if_splits)
  from Cons.IH [OF this] Cons.prems w show ?case
    by (simp add: Let_def replicate_app_Cons_same split: if_splits)
qed

lemma write_wait_timeout:
  assumes "ret (write_wait h en as ws) = None"
    and "st = timeout \<or> dead (others (handle (write_wait h en as ws)))"
  shows "write_wait h en as (ws @ (st, others) # rest) =
     \<lparr>ret = Some (- 1), errno = ETIMEDOUT, handle = others (handle (write_wait h en as ws)),
       actions = actions (write_wait h en as ws)
                 @ [Unlock (path (handle (write_wait h en as ws)))]\<rparr>"
  using assms
proof (induction ws arbitrary: h as)
  case Nil
  then show ?case by (auto simp: Let_def)
next
  case (Cons w ws)
  obtain st' others' where w: "w = (st', others')" by (cases w)
  from Cons.prems(1) w have busy: "\<not> (st' = timeout \<or> dead (others' h))" "urb_out_busy (others' h)"
    by (auto simp: Let_def split: if_splits)
  with Cons.prems w have "ret (write_wait (others' h) en (as @ [Wait_until 5]) ws) = None"
    and "st = timeout \<or> dead (others (handle (write_wait (others' h) en (as @ [Wait_until 5]) ws)))"
    by (simp_all add: Let_def)
  from Cons.IH [OF this] busy w show ?case
    by (simp add: Let_def)
qed

text \<open>
  C4. A live handle, a submission the kernel accepts, and a script of wake-ups
  \<open>ws @ (st, others) # rest\<close> such that the call is still waiting after \<open>ws\<close>
  (\<open>r0\<close> is the call on the script \<open>ws\<close> alone) and the next return of \<open>wait_until\<close>
  is a timeout or finds the handle dead. Then \<open>usb_bulk_write\<close> returns -1 with \<open>errno\<close>
  \<open>ETIMEDOUT\<close>. Its actions are: the lock, the one submission, one \<open>wait_until\<close> with a
  deadline of 5 seconds per wake-up, the unlock; so nothing is submitted again and
  nothing is discarded. The handle is as the other threads left it: when it is not dead,
  a later \<open>usb_kick\<close> marks it dead and, on a writable handle, discards the out-request and
  clears its busy flag.
\<close>

theorem usb_bulk_write_timeout:
  fixes h :: usb_handle and data :: nat and len en :: int and env :: write_env
    and ws :: "(cv_status \<times> (usb_handle \<Rightarrow> usb_handle)) list"
  defines "urb \<equiv> \<lparr>urb_type = USBDEVFS_URB_TYPE_BULK, endpoint = ep_out h, status = - 1,
                    buffer = data, buffer_length = len, actual_length = 0\<rparr>"
    and "r0 \<equiv> usb_bulk_write h data len en (env\<lparr>w_wakes := ws\<rparr>)"
    and "r \<equiv> usb_bulk_write h data len en env"
  assumes alive: "\<not> dead h"
    and accepted: "fst (w_submit env) \<noteq> - 1"
    and script: "w_wakes env = ws @ (st, others) # rest"
    and waiting: "ret r0 = None"
    and event: "st = timeout \<or> dead (others (handle r0))"
  shows "ret r = Some (- 1) \<and> errno r = ETIMEDOUT \<and> handle r = others (handle r0)
     \<and> actions r0 = [Lock (path h), Submit_urb (fd h) urb] @ replicate (Suc (length ws)) (Wait_until 5)
     \<and> actions r = actions r0 @ [Unlock (path (handle r0))]
     \<and> (\<not> dead (handle r) \<longrightarrow>
          dead (fst (usb_kick (handle r)))
          \<and> (writeable (handle r) \<noteq> 0 \<longrightarrow>
               \<not> urb_out_busy (fst (usb_kick (handle r)))
               \<and> Discard_urb (fd (handle r)) Urb_out \<in> set (snd (usb_kick (handle r)))))"
proof -
  let ?h1 = "h\<lparr>urb_out := urb, urb_out_busy := True\<rparr>"
  let ?as = "[Lock (path h), Submit_urb (fd h) urb]"
  from alive accepted have r0: "r0 = write_wait ?h1 (set_errno (snd (w_submit env)) en) ?as ws"
    by (simp add: r0_def usb_bulk_write_def urb_def Let_def)
  from alive accepted script
  have r: "r = write_wait ?h1 (set_errno (snd (w_submit env)) en) ?as (ws @ (st, others) # rest)"
    by (simp add: r_def usb_bulk_write_def urb_def Let_def)
  from waiting event
  have "r = \<lparr>ret = Some (- 1), errno = ETIMEDOUT, handle = others (handle r0),
       actions = actions r0 @ [Unlock (path (handle r0))]\<rparr>"
    unfolding r r0 by (rule write_wait_timeout)
  moreover from waiting have "actions r0 = ?as @ replicate (Suc (length ws)) (Wait_until 5)"
    unfolding r0 by (rule write_wait_blocked_actions)
  moreover have "\<not> dead g \<Longrightarrow> dead (fst (usb_kick g))" for g
    by (simp add: usb_kick_def Let_def)
  moreover have "\<not> dead g \<Longrightarrow> writeable g \<noteq> 0 \<Longrightarrow> \<not> urb_out_busy (fst (usb_kick g))
       \<and> Discard_urb (fd g) Urb_out \<in> set (snd (usb_kick g))" for g
    by (simp add: usb_kick_def Let_def)
  ultimately show ?thesis by simp
qed

theorem usb_bulk_write_timeout_witness:
  "\<not> dead handle64 \<and> fst (w_submit write_times_out) \<noteq> - 1
   \<and> ret (usb_bulk_write handle64 4096 100 0 write_times_out) = Some (- 1)
   \<and> errno (usb_bulk_write handle64 4096 100 0 write_times_out) = 110
   \<and> actions (usb_bulk_write handle64 4096 100 0 write_times_out)
       = [Lock ''/dev/bus/usb/001/002'',
          Submit_urb 7 \<lparr>urb_type = 3, endpoint = 1, status = - 1, buffer = 4096,
                        buffer_length = 100, actual_length = 0\<rparr>,
          Wait_until 5, Unlock ''/dev/bus/usb/001/002'']
   \<and> \<not> dead (handle (usb_bulk_write handle64 4096 100 0 write_times_out))
   \<and> Discard_urb 7 Urb_out
       \<in> set (snd (usb_kick (handle (usb_bulk_write handle64 4096 100 0 write_times_out))))
   \<and> ret (usb_bulk_write handle64 4096 100 0 write_kicked) = Some (- 1)
   \<and> errno (usb_bulk_write handle64 4096 100 0 write_kicked) = 110
   \<and> dead (handle (usb_bulk_write handle64 4096 100 0 write_kicked))"
  using usb_bulk_write_timeout [where h = handle64 and data = 4096 and len = 100 and en = 0
      and env = write_times_out and ws = "[]" and st = timeout and others = "\<lambda>h. h"
      and rest = "[]"]
    usb_bulk_write_timeout [where h = handle64 and data = 4096 and len = 100 and en = 0
      and env = write_kicked and ws = "[(no_timeout, \<lambda>h. h)]" and st = no_timeout
      and others = "\<lambda>h. fst (usb_kick h)" and rest = "[]"]
  by (simp add: handle64_def write_times_out_def write_kicked_def usb_bulk_write_def
      usb_kick_def set_errno_def ETIMEDOUT_def USBDEVFS_URB_TYPE_BULK_def Let_def)


subsection \<open>Stream reads and timeouts\<close>

lemma submitted_append: "submitted (as @ bs) = submitted as @ submitted bs"
  by (induction as rule: submitted.induct) simp_all

lemma read_reap_submitted:
  "submitted (actions (read_reap self h en as reaps)) = submitted as"
  by (induction reaps arbitrary: h en as) (simp_all add: Let_def submitted_append)

lemma usb_bulk_read_submitted:
  "\<not> dead h \<Longrightarrow> submitted (actions (usb_bulk_read h data len en env)) = [(data, len)]"
  by (simp add: usb_bulk_read_def Let_def read_reap_submitted)

lemma read_reap_dead:
  "ret (read_reap self h en as reaps) = Some n \<Longrightarrow> dead (handle (read_reap self h en as reaps))
   \<Longrightarrow> errno (read_reap self h en as reaps) = EINVAL"
  by (induction reaps arbitrary: h en as) (auto simp: Let_def split: if_splits)

lemma usb_bulk_read_dead:
  "ret (usb_bulk_read h data len en env) = Some n \<Longrightarrow> dead (handle (usb_bulk_read h data len en env))
   \<Longrightarrow> errno (usb_bulk_read h data len en env) = EINVAL"
  by (auto simp: usb_bulk_read_def Let_def read_reap_dead split: if_splits)

lemma usb_read_first_actions:
  "0 < len \<Longrightarrow> \<exists>bs. actions (fst (usb_read h data len en (env # rest)))
      = actions (usb_bulk_read h data len en env) @ bs"
  by (subst usb_read.simps)
     (auto simp: Let_def after_actions_def split_def split: option.splits)

lemma usb_read_whole:
  "0 < len \<Longrightarrow> ret (usb_bulk_read h data len en env) = Some len \<Longrightarrow>
   usb_read h data len en (env # rest)
     = (after_actions (actions (usb_bulk_read h data len en env))
          \<lparr>ret = Some 0, errno = errno (usb_bulk_read h data len en env),
            handle = handle (usb_bulk_read h data len en env), actions = []\<rparr>,
        data + nat len, 0)"
  by (subst usb_read.simps) (simp add: Let_def usb_read.simps [of _ _ 0])

lemma usb_read_retry:
  "0 < len \<Longrightarrow> ret (usb_bulk_read h data len en env) = Some n \<Longrightarrow> n \<noteq> len \<Longrightarrow>
   errno (usb_bulk_read h data len en env) = ETIMEDOUT \<Longrightarrow>
   fd (handle (usb_bulk_read h data len en env)) \<noteq> - 1 \<Longrightarrow>
   usb_read h data len en (env # rest)
     = (after_actions (actions (usb_bulk_read h data len en env))
          (fst (usb_read (handle (usb_bulk_read h data len en env))
                  (if 0 < n then data + nat n else data) (if 0 < n then len - n else len)
                  ETIMEDOUT rest)),
        snd (usb_read (handle (usb_bulk_read h data len en env))
                  (if 0 < n then data + nat n else data) (if 0 < n then len - n else len)
                  ETIMEDOUT rest))"
  by (subst usb_read.simps) (simp add: Let_def split_def)

lemma usb_read_fail:
  "0 < len \<Longrightarrow> ret (usb_bulk_read h data len en env) = Some n \<Longrightarrow> n \<noteq> len \<Longrightarrow>
   \<not> (errno (usb_bulk_read h data len en env) = ETIMEDOUT
      \<and> fd (handle (usb_bulk_read h data len en env)) \<noteq> - 1) \<Longrightarrow>
   usb_read h data len en (env # rest)
     = ((usb_bulk_read h data len en env)\<lparr>ret := Some (- 1)\<rparr>, data, len)"
  by (subst usb_read.simps) (auto simp: Let_def)

lemma usb_read_blocked:
  "0 < len \<Longrightarrow> ret (usb_bulk_read h data len en env) = None \<Longrightarrow>
   usb_read h data len en (env # rest) = (usb_bulk_read h data len en env, data, len)"
  by (subst usb_read.simps) (simp add: Let_def)

lemma usb_read_cursor:
  "usb_read h data len en envs = (r, d, l) \<Longrightarrow>
   int d + l = int data + len \<and> (ret r = Some 0 \<longrightarrow> l \<le> 0)"
proof (induction envs arbitrary: h data len en r d l)
  case Nil
  then show ?case by (auto simp: usb_read.simps split: if_splits)
next
  case (Cons env rest)
  show ?case
  proof (cases "0 < len")
    case False
    with Cons.prems show ?thesis by (auto simp: usb_read.simps)
  next
    case True
    let ?r = "usb_bulk_read h data len en env"
    show ?thesis
    proof (cases "ret ?r")
      case None
      from usb_read_blocked [OF True None] Cons.prems None show ?thesis by auto
    next
      case (Some n)
      consider (whole) "n = len"
        | (retry) "n \<noteq> len" "errno ?r = ETIMEDOUT" "fd (handle ?r) \<noteq> - 1"
        | (fail) "n \<noteq> len" "\<not> (errno ?r = ETIMEDOUT \<and> fd (handle ?r) \<noteq> - 1)"
        by blast
      then show ?thesis
      proof cases
        case whole
        with usb_read_whole [OF True, of h data en env rest] Some Cons.prems True
        show ?thesis by (auto simp: after_actions_def)
      next
        case retry
        let ?again = "usb_read (handle ?r) (if 0 < n then data + nat n else data)
            (if 0 < n then len - n else len) ETIMEDOUT rest"
        from usb_read_retry [OF True Some retry] Cons.prems
        have r: "r = after_actions (actions ?r) (fst ?again)" and dl: "snd ?again = (d, l)"
          by simp_all
        then have "?again = (fst ?again, d, l)" by (metis prod.collapse)
        from Cons.IH [OF this] r show ?thesis
          by (auto simp: after_actions_def split: if_splits)
      next
        case fail
        from usb_read_fail [OF True Some fail] Cons.prems show ?thesis by auto
      qed
    qed
  qed
qed


lemma usb_bulk_read_on_dead:
  "dead h \<Longrightarrow> errno (usb_bulk_read h data len en env) = EINVAL"
  by (simp add: usb_bulk_read_def)

text \<open>
  C5, as the code has it. \<open>r\<close> is the first bulk read of a \<open>usb_read\<close> for \<open>len > 0\<close>
  bytes.
  \<^item> When \<open>r\<close> times out, that is, returns -1 with \<open>errno = ETIMEDOUT\<close> (the descriptor
    of the handle not being -1), and no byte was transferred, the call does not fail: it
    goes on, and the second request submitted is for the same \<open>len\<close> bytes at the same
    address.
  \<^item> When \<open>r\<close> returns -1 with any other \<open>errno\<close>, the whole call returns -1 with that
    \<open>errno\<close> and the actions of that one bulk read.
  \<^item> When \<open>usb_read\<close> returns 0, \<open>data\<close> has advanced by at least \<open>len\<close>: the entire
    requested length was transferred.
\<close>

theorem usb_read_retries_after_timeout:
  fixes h :: usb_handle and data :: nat and len en :: int and env :: read_env
  defines "r \<equiv> usb_bulk_read h data len en env"
  shows "(0 < len \<and> ret r = Some (- 1) \<and> errno r = ETIMEDOUT \<and> fd (handle r) \<noteq> - 1
            \<and> actual_length (urb_in (handle r)) = 0 \<longrightarrow>
            take 2 (submitted (actions (fst (usb_read h data len en (env # env2 # rest)))))
              = [(data, len), (data, len)])
       \<and> (0 < len \<and> ret r = Some (- 1) \<and> errno r \<noteq> ETIMEDOUT \<longrightarrow>
            usb_read h data len en (env # rest) = (r, data, len))
       \<and> (0 < len \<and> usb_read h data len en envs = (r', d, l) \<and> ret r' = Some 0 \<longrightarrow>
            len \<le> int d - int data)"
proof (intro conjI impI)
  assume a: "0 < len \<and> ret r = Some (- 1) \<and> errno r = ETIMEDOUT \<and> fd (handle r) \<noteq> - 1
      \<and> actual_length (urb_in (handle r)) = 0"
  let ?r2 = "usb_bulk_read (handle r) data len ETIMEDOUT env2"
  have ne: "EINVAL \<noteq> ETIMEDOUT" by (simp add: EINVAL_def ETIMEDOUT_def)
  from a ne have alive: "\<not> dead h"
    using usb_bulk_read_on_dead [of h data len en env] by (auto simp: r_def)
  from a ne have alive': "\<not> dead (handle r)"
    using usb_bulk_read_dead [of h data len en env "- 1"] by (auto simp: r_def)
  from a have len: "0 < len" by simp
  from usb_read_first_actions [OF len, of "handle r" data ETIMEDOUT env2 rest]
  obtain bs where bs: "actions (fst (usb_read (handle r) data len ETIMEDOUT (env2 # rest)))
      = actions ?r2 @ bs" by blast
  from a have "usb_read h data len en (env # env2 # rest)
     = (after_actions (actions r) (fst (usb_read (handle r) data len ETIMEDOUT (env2 # rest))),
        snd (usb_read (handle r) data len ETIMEDOUT (env2 # rest)))"
    using usb_read_retry [of len h data en env "- 1" "env2 # rest"] by (simp add: r_def)
  then have "submitted (actions (fst (usb_read h data len en (env # env2 # rest))))
     = submitted (actions r) @ submitted (actions ?r2) @ submitted bs"
    by (simp add: after_actions_def submitted_append bs)
  also have "submitted (actions r) = [(data, len)]"
    unfolding r_def by (rule usb_bulk_read_submitted [OF alive])
  also have "submitted (actions ?r2) = [(data, len)]"
    by (rule usb_bulk_read_submitted [OF alive'])
  finally show "take 2 (submitted (actions (fst (usb_read h data len en (env # env2 # rest)))))
      = [(data, len), (data, len)]"
    by simp
next
  assume a: "0 < len \<and> ret r = Some (- 1) \<and> errno r \<noteq> ETIMEDOUT"
  then have "usb_read h data len en (env # rest) = (r\<lparr>ret := Some (- 1)\<rparr>, data, len)"
    using usb_read_fail [of len h data en env "- 1" rest] by (simp add: r_def)
  moreover from a have "r\<lparr>ret := Some (- 1)\<rparr> = r" by simp
  ultimately show "usb_read h data len en (env # rest) = (r, data, len)" by simp
next
  assume "0 < len \<and> usb_read h data len en envs = (r', d, l) \<and> ret r' = Some 0"
  with usb_read_cursor [of h data len en envs r' d l] show "len \<le> int d - int data"
    by auto
qed

lemmas run_read =
  usb_read.simps usb_bulk_read_def read_done_def in_done_def handle64_def zero_urb_def
  after_actions_def set_errno_def Let_def EINTR_def EINVAL_def ETIMEDOUT_def
  USBDEVFS_URB_TYPE_BULK_def

theorem usb_read_retries_after_timeout_witness:
  "(0::int) < 100
   \<and> ret (usb_bulk_read handle64 4096 100 0 (read_done (- 110) 0)) = Some (- 1)
   \<and> errno (usb_bulk_read handle64 4096 100 0 (read_done (- 110) 0)) = 110
   \<and> fd (handle (usb_bulk_read handle64 4096 100 0 (read_done (- 110) 0))) = 7
   \<and> actual_length (urb_in (handle (usb_bulk_read handle64 4096 100 0 (read_done (- 110) 0)))) = 0
   \<and> take 2 (submitted (actions (fst
         (usb_read handle64 4096 100 0 [read_done (- 110) 0, read_done 0 100]))))
       = [(4096, 100), (4096, 100)]
   \<and> ret (fst (usb_read handle64 4096 100 0 [read_done (- 110) 0, read_done 0 100])) = Some 0
   \<and> snd (usb_read handle64 4096 100 0 [read_done (- 110) 0, read_done 0 100]) = (4196, 0)
   \<and> ret (usb_bulk_read handle64 4096 100 0 (read_done (- 19) 0)) = Some (- 1)
   \<and> errno (usb_bulk_read handle64 4096 100 0 (read_done (- 19) 0)) = 19
   \<and> ret (fst (usb_read handle64 4096 100 0 [read_done (- 19) 0, read_done 0 100])) = Some (- 1)
   \<and> errno (fst (usb_read handle64 4096 100 0 [read_done (- 19) 0, read_done 0 100])) = 19
   \<and> submitted (actions (fst
         (usb_read handle64 4096 100 0 [read_done (- 19) 0, read_done 0 100])))
       = [(4096, 100)]"
  using usb_read_retries_after_timeout [where h = handle64 and data = 4096 and len = 100
      and en = 0 and env = "read_done (- 110) 0" and ?env2.0 = "read_done 0 100" and rest = "[]"
      and envs = "[read_done (- 110) 0, read_done 0 100]"
      and r' = "fst (usb_read handle64 4096 100 0 [read_done (- 110) 0, read_done 0 100])"
      and d = 4196 and l = 0]
    usb_read_retries_after_timeout [where h = handle64 and data = 4096 and len = 100
      and en = 0 and env = "read_done (- 19) 0" and rest = "[read_done 0 100]"]
  by (simp add: run_read)

text \<open>
  The claim as written says that a timeout with no partial progress fails the whole
  call. Here the first bulk read completes with the status \<open>-ETIMEDOUT\<close> and no byte,
  so it returns -1 with \<open>errno = ETIMEDOUT\<close>; \<open>usb_read\<close> submits the same 100 bytes
  again and returns 0.
\<close>

theorem usb_read_timeout_without_progress:
  "ret (usb_bulk_read handle64 4096 100 0 (read_done (- 110) 0)) = Some (- 1)
   \<and> errno (usb_bulk_read handle64 4096 100 0 (read_done (- 110) 0)) = 110
   \<and> actual_length (urb_in (handle (usb_bulk_read handle64 4096 100 0 (read_done (- 110) 0)))) = 0
   \<and> ret (fst (usb_read handle64 4096 100 0 [read_done (- 110) 0, read_done 0 100])) = Some 0
   \<and> submitted (actions (fst
         (usb_read handle64 4096 100 0 [read_done (- 110) 0, read_done 0 100])))
       = [(4096, 100), (4096, 100)]"
  by (simp add: run_read)

text \<open>
  C5 as stated above leaves open what follows a bulk read that times out after part of
  the data has arrived. \<open>usb_bulk_read\<close> returns a count only when the request completed
  with the status 0, and then it does not touch \<open>errno\<close>; a request that completes with
  the status \<open>-ETIMEDOUT\<close> and 40 bytes returns -1 like one with no byte. So the lines
  of \<open>usb_read\<close> that advance \<open>data\<close> and \<open>len\<close> by \<open>n > 0\<close> are reached only when
  \<open>errno\<close> was \<open>ETIMEDOUT\<close> before the call already, and after the timeout with 40 bytes
  the whole 100 bytes are requested again at the same address.
\<close>

lemma usb_read_timeout_after_40_bytes:
  "ret (usb_bulk_read handle64 4096 100 0 (read_done (- 110) 40)) = Some (- 1)
   \<and> submitted (actions (fst
         (usb_read handle64 4096 100 0 [read_done (- 110) 40, read_done 0 100])))
       = [(4096, 100), (4096, 100)]
   \<and> ret (fst (usb_read handle64 4096 100 0 [read_done 0 40, read_done 0 60])) = Some (- 1)
   \<and> submitted (actions (fst
         (usb_read handle64 4096 100 ETIMEDOUT [read_done 0 40, read_done 0 60])))
       = [(4096, 100), (4136, 60)]"
  by (simp add: run_read)

subsection \<open>The zero-packet rule\<close>

lemma mask_test_dvd:
  assumes "k \<le> 32"
  shows "((word_of_int len :: 32 word) AND (2 ^ k - 1) = 0) = (2 ^ k dvd len)"
proof -
  let ?x = "take_bit k len :: int"
  have "(word_of_int len :: 32 word) AND (2 ^ k - 1) = word_of_int ?x"
    by (simp add: and_mask_wi flip: mask_eq_exp_minus_1)
  then have "((word_of_int len :: 32 word) AND (2 ^ k - 1) = 0) = ((2 :: int) ^ 32 dvd ?x)"
    by (simp add: word_of_int_eq_0_iff)
  also have "\<dots> = (?x = 0)"
  proof
    assume d: "(2 :: int) ^ 32 dvd ?x"
    have "0 \<le> ?x" by simp
    moreover have "?x < 2 ^ k" by simp
    moreover from assms have "(2 :: int) ^ k \<le> 2 ^ 32" by (intro power_increasing) simp_all
    ultimately have "0 \<le> ?x" "?x < 2 ^ 32" by linarith+
    with d show "?x = 0" using zdvd_not_zless [of ?x "2 ^ 32"] by fastforce
  next
    assume "?x = 0"
    then show "(2 :: int) ^ 32 dvd ?x" by simp
  qed
  also have "\<dots> = (2 ^ k dvd len)"
    by (simp add: take_bit_eq_0_iff)
  finally show ?thesis .
qed

lemma mask_nonzero: "0 < k \<Longrightarrow> (2 ^ k - 1 :: 32 word) \<noteq> 0"
  by (metis less_not_refl mask_eq_0_iff mask_eq_exp_minus_1)

lemma write_wait_submitted:
  "submitted (actions (write_wait h en as ws)) = submitted as"
  by (induction ws arbitrary: h as) (auto simp: Let_def submitted_append)

lemma usb_bulk_write_submitted:
  "\<not> dead h \<Longrightarrow> submitted (actions (usb_bulk_write h data len en env)) = [(data, len)]"
  by (simp add: usb_bulk_write_def Let_def write_wait_submitted)

lemma write_wait_success:
  "ret (write_wait h en as ws) = Some n \<Longrightarrow> 0 \<le> n \<Longrightarrow> \<not> dead (handle (write_wait h en as ws))"
  by (induction ws arbitrary: h as) (auto simp: Let_def split: if_splits)

lemma usb_bulk_write_success:
  "ret (usb_bulk_write h data len en env) = Some n \<Longrightarrow> 0 \<le> n \<Longrightarrow>
   \<not> dead h \<and> \<not> dead (handle (usb_bulk_write h data len en env))"
  by (auto simp: usb_bulk_write_def Let_def write_wait_success split: if_splits)

lemma look_for_endpoints_match:
  "look_for_endpoints mem desclength interface bufptr rs = Break (Match m) rs' \<Longrightarrow>
   m_interface m = mem (interface + 2)
   \<and> m_zero_mask m = (if mem (interface + 7) = 1 then ucast (le16 mem (bufptr + 4)) - 1 else 0)"
  by (auto simp: look_for_endpoints_def Let_def split_def split: if_splits)

lemma loop_body_match:
  "loop_body is_adb mem desclength vid pid bufptr rs = Break (Match m) rs' \<Longrightarrow>
   mem (bufptr + 1) = USB_DT_INTERFACE \<and> unat (mem bufptr) = USB_DT_INTERFACE_SIZE
   \<and> m_interface m = mem (bufptr + 2)
   \<and> m_zero_mask m = (if mem (bufptr + 7) = 1
                       then ucast (le16 mem (bufptr + USB_DT_INTERFACE_SIZE + 4)) - 1 else 0)"
  by (auto simp: loop_body_def Let_def dest!: look_for_endpoints_match split: if_splits)


lemma descriptor_loop_match:
  assumes run: "descriptor_loop is_adb mem desclength vid pid bufptr rs = Some (Match m, rs')"
  shows "\<exists>interface. mem (interface + 1) = USB_DT_INTERFACE
     \<and> unat (mem interface) = USB_DT_INTERFACE_SIZE
     \<and> m_interface m = mem (interface + 2)
     \<and> m_zero_mask m = (if mem (interface + 7) = 1
                         then ucast (le16 mem (interface + USB_DT_INTERFACE_SIZE + 4)) - 1 else 0)"
proof -
  let ?Q = "\<lambda>mem m. \<exists>interface. mem (interface + 1) = USB_DT_INTERFACE
     \<and> unat (mem interface) = USB_DT_INTERFACE_SIZE
     \<and> m_interface m = mem (interface + 2)
     \<and> m_zero_mask m = (if mem (interface + 7) = 1
                         then ucast (le16 mem (interface + USB_DT_INTERFACE_SIZE + 4)) - 1 else 0)"
  have "\<forall>m' rs''. (Match m, rs') = (Match m', rs'') \<longrightarrow> ?Q mem m'"
  proof (rule descriptor_loop.raw_induct
      [where P = "\<lambda>f mem d v p q rs y. \<forall>m rs'. y = (Match m, rs') \<longrightarrow> ?Q mem m", OF _ run])
    fix loop :: "(u16 \<Rightarrow> u16 \<Rightarrow> u8 \<Rightarrow> u8 \<Rightarrow> u8 \<Rightarrow> bool) \<Rightarrow> memory \<Rightarrow> nat \<Rightarrow> u16 \<Rightarrow> u16 \<Rightarrow> nat
        \<Rightarrow> nat list \<Rightarrow> (parse_result \<times> nat list) option"
      and is_adb mem desclength vid pid bufptr rs y
    assume IH: "\<And>is_adb mem desclength vid pid bufptr rs y.
        loop is_adb mem desclength vid pid bufptr rs = Some y \<Longrightarrow>
        \<forall>m rs'. y = (Match m, rs') \<longrightarrow> ?Q mem m"
    assume body: "(if bufptr < desclength then
          case loop_body is_adb mem desclength vid pid bufptr rs of
            Break r rs' \<Rightarrow> Some (r, rs')
          | Continue bufptr' rs' \<Rightarrow> loop is_adb mem desclength vid pid bufptr' rs'
        else Some (No_match, rs)) = Some y"
    show "\<forall>m rs'. y = (Match m, rs') \<longrightarrow> ?Q mem m"
    proof (cases "bufptr < desclength")
      case False
      with body show ?thesis by auto
    next
      case True
      show ?thesis
      proof (cases "loop_body is_adb mem desclength vid pid bufptr rs")
        case (Break r rs0)
        with True body have y: "y = (r, rs0)" by simp
        show ?thesis
        proof (intro allI impI)
          fix m rs'
          assume "y = (Match m, rs')"
          with y Break have "loop_body is_adb mem desclength vid pid bufptr rs = Break (Match m) rs'"
            by simp
          from loop_body_match [OF this] show "?Q mem m" by blast
        qed
      next
        case (Continue bufptr' rs0)
        with True body have "loop is_adb mem desclength vid pid bufptr' rs0 = Some y" by simp
        then show ?thesis by (rule IH)
      qed
    qed
  qed
  then show ?thesis by blast
qed

text \<open>
  C6, as the code has it.
  \<^item> A match of \<open>find_usb_device\<close> comes from an interface descriptor in the buffer, the
    one whose number is passed on, and the zero-packet mask passed on is
    \<open>wMaxPacketSize - 1\<close> of the endpoint descriptor behind it when the interface's
    protocol byte is 1, and 0 otherwise.
  \<^item> \<open>usb_write\<close> of \<open>len \<ge> 0\<close> bytes on a handle whose mask is \<open>2 ^ k - 1\<close> (packet size
    \<open>2 ^ k\<close>, \<open>k > 0\<close>), when the bulk write of the payload returned \<open>len\<close>: the requests
    submitted are the payload and one more of length 0 when \<open>len\<close> is a multiple of the
    packet size, zero included, and the payload alone otherwise.
  \<^item> On a handle whose mask is 0 the payload is the only request.
\<close>

theorem zero_packet_rule:
  fixes h :: usb_handle and data :: nat and len en :: int and env1 :: write_env
  defines "r1 \<equiv> usb_bulk_write h data len en env1"
  shows "(find_usb_device is_adb mem desclength = Some (Match m, rs) \<longrightarrow>
            (\<exists>interface. mem (interface + 1) = USB_DT_INTERFACE
               \<and> unat (mem interface) = USB_DT_INTERFACE_SIZE
               \<and> m_interface m = mem (interface + 2)
               \<and> m_zero_mask m
                   = (if mem (interface + 7) = 1
                      then ucast (le16 mem (interface + USB_DT_INTERFACE_SIZE + 4)) - 1 else 0)))
       \<and> (0 \<le> len \<and> ret r1 = Some len \<and> zero_mask (handle r1) = 2 ^ k - 1 \<and> 0 < k \<and> k \<le> 32 \<longrightarrow>
            submitted (actions (usb_write h data len en env1 env2))
              = (if 2 ^ k dvd len then [(data, len), (data, 0)] else [(data, len)]))
       \<and> (0 \<le> len \<and> ret r1 = Some len \<and> zero_mask (handle r1) = 0 \<longrightarrow>
            submitted (actions (usb_write h data len en env1 env2)) = [(data, len)])"
proof (intro conjI impI)
  assume "find_usb_device is_adb mem desclength = Some (Match m, rs)"
  then have "descriptor_loop is_adb mem desclength (le16 mem 8) (le16 mem 10)
      (USB_DT_DEVICE_SIZE + USB_DT_CONFIG_SIZE)
      [0, 1, 8, 9, 10, 11, USB_DT_DEVICE_SIZE, USB_DT_DEVICE_SIZE + 1] = Some (Match m, rs)"
    by (simp add: find_usb_device_def Let_def split: if_splits)
  then show "\<exists>interface. mem (interface + 1) = USB_DT_INTERFACE
               \<and> unat (mem interface) = USB_DT_INTERFACE_SIZE
               \<and> m_interface m = mem (interface + 2)
               \<and> m_zero_mask m
                   = (if mem (interface + 7) = 1
                      then ucast (le16 mem (interface + USB_DT_INTERFACE_SIZE + 4)) - 1 else 0)"
    by (rule descriptor_loop_match)
next
  assume a: "0 \<le> len \<and> ret r1 = Some len \<and> zero_mask (handle r1) = 2 ^ k - 1 \<and> 0 < k \<and> k \<le> 32"
  then have alive: "\<not> dead h" "\<not> dead (handle r1)"
    using usb_bulk_write_success [of h data len en env1 len] by (simp_all add: r1_def)
  from a have "zero_mask (handle r1) \<noteq> 0"
    using mask_nonzero [of k] by simp
  moreover from a have "(word_of_int len AND zero_mask (handle r1) = 0) = (2 ^ k dvd len)"
    using mask_test_dvd [of k len] by simp
  ultimately
  have test: "(zero_mask (handle r1) \<noteq> 0 \<and> word_of_int len AND zero_mask (handle r1) = 0)
      = (2 ^ k dvd len)"
    by simp
  from alive have one: "submitted (actions r1) = [(data, len)]"
    and two: "submitted (actions (usb_bulk_write (handle r1) data 0 (errno r1) env2)) = [(data, 0)]"
    by (simp_all add: r1_def usb_bulk_write_submitted)
  from a test one two
  show "submitted (actions (usb_write h data len en env1 env2))
      = (if 2 ^ k dvd len then [(data, len), (data, 0)] else [(data, len)])"
    by (auto simp: usb_write_def r1_def [symmetric] Let_def after_actions_def submitted_append)
next
  assume a: "0 \<le> len \<and> ret r1 = Some len \<and> zero_mask (handle r1) = 0"
  then have "\<not> dead h"
    using usb_bulk_write_success [of h data len en env1 len] by (simp add: r1_def)
  then have "submitted (actions r1) = [(data, len)]"
    by (simp add: r1_def usb_bulk_write_submitted)
  with a show "submitted (actions (usb_write h data len en env1 env2)) = [(data, len)]"
    by (simp add: usb_write_def r1_def [symmetric] Let_def)
qed

lemmas run_write =
  usb_write_def usb_bulk_write_def write_done_def out_done_def handle64_def zero_urb_def
  after_actions_def set_errno_def Let_def USBDEVFS_URB_TYPE_BULK_def

theorem zero_packet_rule_witness:
  "map_option fst (find_usb_device adb_signature (bytes adb_descriptors) 50)
     = Some (Match \<lparr>m_ep_in = 129, m_ep_out = 1, m_interface = 0, m_serial_index = 3,
                     m_zero_mask = 63\<rparr>)
   \<and> bytes adb_descriptors (27 + 7) = 1
   \<and> le16 (bytes adb_descriptors) (27 + 9 + 4) = 64
   \<and> zero_mask handle64 = 2 ^ 6 - 1
   \<and> ret (usb_bulk_write handle64 4096 128 0 (write_done 128)) = Some 128
   \<and> submitted (actions (usb_write handle64 4096 128 0 (write_done 128) (write_done 0)))
       = [(4096, 128), (4096, 0)]
   \<and> ret (usb_bulk_write handle64 4096 127 0 (write_done 127)) = Some 127
   \<and> submitted (actions (usb_write handle64 4096 127 0 (write_done 127) (write_done 0)))
       = [(4096, 127)]"
  using zero_packet_rule [where is_adb = adb_signature and mem = "bytes adb_descriptors"
      and desclength = 50 and h = handle64 and data = 4096 and len = 128 and en = 0
      and ?env1.0 = "write_done 128" and ?env2.0 = "write_done 0" and k = 6]
    zero_packet_rule [where h = handle64 and data = 4096 and len = 127 and en = 0
      and ?env1.0 = "write_done 127" and ?env2.0 = "write_done 0" and k = 6]
  by (simp add: run_write find_usb_device_def descriptor_loop.simps loop_body_def
      look_for_endpoints_def skip_ss_ep_comp_def endpoint_tags_wrong_def not_both_bulk_def
      adb_signature_def adb_descriptors_def bytes_def headers_def le16_def usb_consts)

text \<open>
  The claim as written wants the trailer for non-zero multiples of the packet size
  only. The test in the code is \<open>!(len & h->zero_mask)\<close>, which the length 0 passes: a
  write of no bytes on a handle with the mask 63 submits two requests of length 0.
\<close>

theorem usb_write_zero_length_trailer:
  "zero_mask handle64 = 63
   \<and> ret (usb_write handle64 4096 0 0 (write_done 0) (write_done 0)) = Some 0
   \<and> submitted (actions (usb_write handle64 4096 0 0 (write_done 0) (write_done 0)))
       = [(4096, 0), (4096, 0)]"
  by (simp add: run_write)

end
